theory Spec2Isabelle
  imports Complex_Main "HOL-Library.Word"
begin

unbundle bit_operations_syntax

section \<open>Strings\<close>

text \<open>
  A JavaScript string is a sequence of UTF-16 code units. Literals of the source that are
  ASCII are written with \<open>js\<close>; the Chinese message texts are given by their code units.
\<close>

type_synonym jsstring = "16 word list"

definition js :: "string \<Rightarrow> jsstring" where
  "js s = map of_char s"

text \<open>
  \<open>String.prototype.trim\<close> removes WhiteSpace and LineTerminator code points from both
  ends (ECMA-262: TAB, VT, FF, SP, NBSP, ZWNBSP, the Zs category, LF, CR, LS, PS).
\<close>

definition is_whitespace :: "16 word \<Rightarrow> bool" where
  "is_whitespace c \<longleftrightarrow>
     c \<in> {0x09, 0x0A, 0x0B, 0x0C, 0x0D, 0x20, 0xA0, 0x1680, 0x2028, 0x2029, 0x202F, 0x205F,
          0x3000, 0xFEFF} \<or> (0x2000 \<le> c \<and> c \<le> 0x200A)"

definition trim :: "jsstring \<Rightarrow> jsstring" where
  "trim s = rev (dropWhile is_whitespace (rev (dropWhile is_whitespace s)))"

text \<open>\<open>String.prototype.includes\<close>: the argument occurs as a contiguous run.\<close>

fun includes_js :: "jsstring \<Rightarrow> jsstring \<Rightarrow> bool" where
  "includes_js [] sub = (sub = [])"
| "includes_js (c # cs) sub = (take (length sub) (c # cs) = sub \<or> includes_js cs sub)"

text \<open>Decimal rendering of an integer, as a template literal renders an integral number.\<close>

fun digits :: "nat \<Rightarrow> jsstring" where
  "digits n = (if n < 10 then [of_nat (48 + n)] else digits (n div 10) @ [of_nat (48 + n mod 10)])"

definition number_to_string :: "int \<Rightarrow> jsstring" where
  "number_to_string i = (if i < 0 then js ''-'' @ digits (nat (- i)) else digits (nat i))"

section \<open>Data model\<close>

text \<open>
  An ISO-8601 timestamp text is represented by what \<open>new Date(text)\<close> yields: a time value
  in milliseconds since the epoch, or Invalid Date for a text that is not a date.
\<close>

datatype date_string = Date_text int | Not_a_date

text \<open>The largest time value of a \<open>Date\<close> (ECMA-262, 8.64e15 ms).\<close>

definition max_time_value :: int where
  "max_time_value = 8640000000000000"

text \<open>
  What the code can see of a decoded JSON error body: whether the value is truthy, and the
  \<open>error\<close> member of a truthy value when that member is a string.
\<close>

datatype error_json = Json_falsy | Json_truthy "jsstring option"

text \<open>
  A thrown \<open>Error\<close> object. \<open>status\<close> and \<open>data\<close> are the optional markers that
  \<open>buildHttpError\<close> attaches; \<open>None\<close> is \<open>undefined\<close>.
\<close>

record js_error =
  name :: jsstring
  message :: jsstring
  status :: "int option"
  data :: "error_json option"

definition new_Error :: "jsstring \<Rightarrow> js_error" where
  "new_Error msg = \<lparr>name = js ''Error'', message = msg, status = None, data = None\<rparr>"

record QwenTokenResponse =
  access_token_resp :: jsstring
  refresh_token_resp :: "jsstring option"
  token_type_resp :: jsstring
  resource_url_resp :: "jsstring option"
  expires_in :: int

record QwenTokenData =
  access_token :: jsstring
  refresh_token :: "jsstring option"
  token_type :: jsstring
  resource_url :: "jsstring option"
  expiry_date :: date_string

record QwenTokenStorage =
  access_token_st :: jsstring
  refresh_token_st :: "jsstring option"
  last_refresh :: date_string
  resource_url_st :: "jsstring option"
  email_st :: jsstring
  type_st :: jsstring
  expired :: date_string

datatype detail = Auto | Low | High

datatype QwenContentPart = Text_part jsstring | Image_url_part jsstring "detail option"

datatype QwenMessage =
    System_message jsstring
  | Assistant_message jsstring
  | User_message jsstring
  | User_parts "QwenContentPart list"

record QwenRequestOptions =
  model :: jsstring
  messages :: "QwenMessage list"
  stream :: "bool option"

section \<open>The environment\<close>

text \<open>
  A file's text is represented by what \<open>JSON.parse\<close> makes of it: the envelope it denotes
  (the declared type of \<open>storageData\<close>), or a text that \<open>JSON.parse\<close> rejects.
  \<open>JSON.stringify\<close> of an envelope followed by \<open>JSON.parse\<close> is the identity on it: members
  that are \<open>undefined\<close> are left out of the text and read back as \<open>undefined\<close>.
\<close>

datatype file_text = Envelope_text QwenTokenStorage | Unparseable_text

datatype fs_entry = Regular_file file_text | Directory

text \<open>An HTTP request as handed to \<open>fetch\<close>: a form POST or a JSON POST.\<close>

datatype request =
    Form_post jsstring "(jsstring \<times> jsstring) list"
  | Json_post jsstring "(jsstring \<times> jsstring) list" QwenRequestOptions

text \<open>
  An HTTP response. \<open>Response_ok\<close> is a response whose \<open>ok\<close> flag is set; its body is
  JSON of the type the caller declares, or text that is not JSON. \<open>Response_not_ok\<close>
  carries the status, the status text and the body; a JSON body comes with its
  \<open>JSON.stringify\<close> rendering.
\<close>

datatype 'a ok_body = Json 'a | Not_json jsstring

datatype err_body = Json_body error_json jsstring | Text_body jsstring

datatype 'a response = Response_ok "'a ok_body" | Response_not_ok int jsstring err_body

text \<open>
  The remote side: for each request, \<open>fetch\<close> rejects with an error or resolves with a
  response, after some milliseconds, and the server moves to a new state.
\<close>

type_synonym ('n, 'a) endpoint = "request \<Rightarrow> 'n \<Rightarrow> (js_error + 'a response) \<times> nat \<times> 'n"

record ('n, 'c) network =
  token_endpoint :: "('n, QwenTokenResponse) endpoint"
  chat_endpoint :: "('n, 'c) endpoint"

datatype event = Slept int | Fetched request | Warned js_error

text \<open>
  The SDK instance (\<open>tokenStoragePath\<close>, \<open>currentToken\<close>, \<open>currentEmail\<close>) together with
  the world it acts on: the clock read by \<open>Date.now()\<close>, the file system, the server, and
  the trace of the timers awaited, the requests sent and the warnings logged.
\<close>

record 'n state =
  tokenStoragePath :: jsstring
  currentToken :: "QwenTokenData option"
  currentEmail :: "jsstring option"
  clock :: int
  files :: "jsstring \<rightharpoonup> fs_entry"
  writable :: bool
  server :: 'n
  trace :: "event list"

text \<open>
  The timer of the runtime holds its delay in 32 bits: a delay below 1 or above 2147483647
  milliseconds is set to 1 (Node's \<open>setTimeout\<close>, which Bun follows).
\<close>

definition timer_delay :: "int \<Rightarrow> int" where
  "timer_delay ms = (if 1 \<le> ms \<and> ms \<le> 2147483647 then ms else 1)"

text \<open>
  \<open>await new Promise(resolve => setTimeout(resolve, ms))\<close>: the timer is asked for \<open>ms\<close>
  milliseconds and fires after the delay the runtime makes of it.
\<close>

definition sleep :: "int \<Rightarrow> 'n state \<Rightarrow> 'n state" where
  "sleep ms st = st\<lparr>clock := clock st + timer_delay ms, trace := trace st @ [Slept ms]\<rparr>"

section \<open>withRetry\<close>

definition MAX_RETRIES :: int where
  "MAX_RETRIES = 5"

definition RETRY_DELAY_MS :: int where
  "RETRY_DELAY_MS = 2000"

text \<open>The message of the fallback error, \<open>new Error('...')\<close> of line 43.\<close>

definition request_failed :: jsstring where
  "request_failed = [0x8BF7, 0x6C42, 0x5931, 0x8D25]"

text \<open>
  The \<open>for\<close> loop of \<open>withRetry\<close>, started at \<open>attempt\<close>. The operation \<open>fn\<close> acts on the
  state and either returns a value or throws an \<open>Error\<close>.
\<close>

function withRetry_loop ::
  "('n state \<Rightarrow> (js_error + 'a) \<times> 'n state) \<Rightarrow> int \<Rightarrow> int \<Rightarrow> int \<Rightarrow> js_error option
     \<Rightarrow> 'n state \<Rightarrow> (js_error + 'a) \<times> 'n state" where
  "withRetry_loop fn retries delay attempt lastError st =
     (if attempt \<le> retries then
        (case fn st of
           (Inr v, st') \<Rightarrow> (Inr v, st')
         | (Inl err, st') \<Rightarrow>
             if status err = Some 401 \<or> status err = Some 403 \<or> status err = Some 400
             then (Inl err, st')
             else if attempt < retries
               then withRetry_loop fn retries delay (attempt + 1) (Some err)
                      (sleep (delay * attempt) st')
               else withRetry_loop fn retries delay (attempt + 1) (Some err) st')
      else (case lastError of
              Some err \<Rightarrow> (Inl err, st)
            | None \<Rightarrow> (Inl (new_Error request_failed), st)))"
  by pat_completeness auto
termination
  by (relation "measure (\<lambda>(fn, retries, delay, attempt, lastError, st). nat (retries + 1 - attempt))")
    auto

declare withRetry_loop.simps [simp del]

definition withRetry ::
  "('n state \<Rightarrow> (js_error + 'a) \<times> 'n state) \<Rightarrow> int \<Rightarrow> int \<Rightarrow> 'n state
     \<Rightarrow> (js_error + 'a) \<times> 'n state" where
  "withRetry fn retries delay st = withRetry_loop fn retries delay 1 None st"

text \<open>The errors that \<open>withRetry\<close> does not retry (line 35).\<close>

definition no_retry :: "js_error \<Rightarrow> bool" where
  "no_retry err \<longleftrightarrow> status err = Some 401 \<or> status err = Some 403 \<or> status err = Some 400"

text \<open>
  The state in which attempt number \<open>n + 1\<close> starts when the \<open>n\<close> attempts before it have
  all thrown: each of them is followed by a sleep of \<open>delay\<close> times its number.
\<close>

fun before_attempt ::
  "('n state \<Rightarrow> (js_error + 'a) \<times> 'n state) \<Rightarrow> int \<Rightarrow> nat \<Rightarrow> 'n state \<Rightarrow> 'n state" where
  "before_attempt fn delay 0 st = st"
| "before_attempt fn delay (Suc n) st =
     sleep (delay * int (Suc n)) (snd (fn (before_attempt fn delay n st)))"

text \<open>An attempt fails and is retried: the operation throws an error that is not fatal.\<close>

definition fails_retryably :: "(js_error + 'a) \<times> 'n state \<Rightarrow> bool" where
  "fails_retryably r \<longleftrightarrow> (case fst r of Inl err \<Rightarrow> \<not> no_retry err | Inr v \<Rightarrow> False)"

section \<open>Dates\<close>

text \<open>
  \<open>new Date(v).toISOString()\<close>: a time value beyond the range of \<open>Date\<close> gives an
  Invalid Date, on which \<open>toISOString\<close> throws a \<open>RangeError\<close>.
\<close>

definition RangeError :: js_error where
  "RangeError = \<lparr>name = js ''RangeError'', message = js ''Invalid time value'', status = None, data = None\<rparr>"

definition toISOString :: "int \<Rightarrow> js_error + date_string" where
  "toISOString v = (if \<bar>v\<bar> \<le> max_time_value then Inr (Date_text v) else Inl RangeError)"

text \<open>\<open>parseExpiry\<close>: the time value of \<open>new Date(expiryDate)\<close>; \<open>None\<close> is Invalid Date.\<close>

definition parseExpiry :: "date_string \<Rightarrow> int option" where
  "parseExpiry expiryDate =
     (case expiryDate of
        Date_text v \<Rightarrow> if \<bar>v\<bar> \<le> max_time_value then Some v else None
      | Not_a_date \<Rightarrow> None)"

text \<open>
  \<open>isTokenExpired\<close>, with the current time \<open>now\<close> of \<open>new Date()\<close>. A comparison with an
  Invalid Date is false.
\<close>

definition isTokenExpired :: "int \<Rightarrow> QwenTokenData \<Rightarrow> bool" where
  "isTokenExpired now token =
     (case parseExpiry (expiry_date token) of Some v \<Rightarrow> now \<ge> v | None \<Rightarrow> False)"

section \<open>Token storage\<close>

definition EACCES :: js_error where
  "EACCES = \<lparr>name = js ''Error'', message = js ''EACCES: permission denied'', status = None, data = None\<rparr>"

definition EISDIR :: js_error where
  "EISDIR = \<lparr>name = js ''Error'', message = js ''EISDIR: illegal operation on a directory'', status = None, data = None\<rparr>"

definition SyntaxError :: js_error where
  "SyntaxError = \<lparr>name = js ''SyntaxError'', message = js ''Unexpected token'', status = None, data = None\<rparr>"

text \<open>
  \<open>fs.promises.mkdir(dir, {recursive: true})\<close> rejects when the storage cannot be written.
  Directories other than one found at the token path itself are not tracked.
\<close>

definition mkdir :: "'n state \<Rightarrow> (js_error + unit) \<times> 'n state" where
  "mkdir st = (if writable st then (Inr (), st) else (Inl EACCES, st))"

text \<open>\<open>fs.promises.writeFile\<close> replaces the whole content of the file.\<close>

definition writeFile :: "jsstring \<Rightarrow> file_text \<Rightarrow> 'n state \<Rightarrow> (js_error + unit) \<times> 'n state" where
  "writeFile path content st =
     (if \<not> writable st then (Inl EACCES, st)
      else if files st path = Some Directory then (Inl EISDIR, st)
      else (Inr (), st\<lparr>files := (files st)(path \<mapsto> Regular_file content)\<rparr>))"

definition readFile :: "jsstring \<Rightarrow> 'n state \<Rightarrow> js_error + file_text" where
  "readFile path st =
     (case files st path of
        Some (Regular_file content) \<Rightarrow> Inr content
      | Some Directory \<Rightarrow> Inl EISDIR
      | None \<Rightarrow> Inl \<lparr>name = js ''Error'', message = js ''ENOENT: no such file or directory'', status = None, data = None\<rparr>)"

definition JSON_parse :: "file_text \<Rightarrow> js_error + QwenTokenStorage" where
  "JSON_parse content =
     (case content of Envelope_text storageData \<Rightarrow> Inr storageData | Unparseable_text \<Rightarrow> Inl SyntaxError)"

text \<open>\<open>new Date().toISOString()\<close> of the current time, which is always a valid time value.\<close>

definition saveTokenToStorage ::
  "QwenTokenData \<Rightarrow> jsstring \<Rightarrow> 'n state \<Rightarrow> (js_error + unit) \<times> 'n state" where
  "saveTokenToStorage token email_arg st =
     (let storageData =
            \<lparr>access_token_st = access_token token,
             refresh_token_st = refresh_token token,
             last_refresh = Date_text (clock st),
             resource_url_st = resource_url token,
             email_st = email_arg,
             type_st = js ''qwen'',
             expired = expiry_date token\<rparr>
      in case mkdir st of
           (Inl err, st1) \<Rightarrow> (Inl err, st1)
         | (Inr u, st1) \<Rightarrow> writeFile (tokenStoragePath st1) (Envelope_text storageData) st1)"

definition updateTokenEmail :: "jsstring \<Rightarrow> 'n state \<Rightarrow> (js_error + unit) \<times> 'n state" where
  "updateTokenEmail email_arg st =
     (case currentToken st of
        None \<Rightarrow> (Inr (), st)
      | Some token \<Rightarrow> saveTokenToStorage token email_arg (st\<lparr>currentEmail := Some email_arg\<rparr>))"

text \<open>The \<open>try\<close> block of \<open>loadTokenFromStorage\<close>; falling out of the \<open>if\<close> is \<open>Inr None\<close>.\<close>

definition loadTokenFromStorage_try ::
  "'n state \<Rightarrow> (js_error + QwenTokenData option) \<times> 'n state" where
  "loadTokenFromStorage_try st =
     (if files st (tokenStoragePath st) \<noteq> None then
        (case readFile (tokenStoragePath st) st of
           Inl err \<Rightarrow> (Inl err, st)
         | Inr content \<Rightarrow>
            (case JSON_parse content of
               Inl err \<Rightarrow> (Inl err, st)
             | Inr storageData \<Rightarrow>
                (let token =
                       \<lparr>access_token = access_token_st storageData,
                        refresh_token = refresh_token_st storageData,
                        token_type = js ''Bearer'',
                        resource_url = resource_url_st storageData,
                        expiry_date = expired storageData\<rparr>
                 in (Inr (Some token),
                     st\<lparr>currentToken := Some token, currentEmail := Some (email_st storageData)\<rparr>))))
      else (Inr None, st))"

text \<open>The \<open>catch\<close> clause logs a warning; then \<open>null\<close> is returned.\<close>

definition loadTokenFromStorage ::
  "'n state \<Rightarrow> (js_error + QwenTokenData option) \<times> 'n state" where
  "loadTokenFromStorage st =
     (case loadTokenFromStorage_try st of
        (Inl err, st1) \<Rightarrow> (Inr None, st1\<lparr>trace := trace st1 @ [Warned err]\<rparr>)
      | (Inr r, st1) \<Rightarrow> (Inr r, st1))"

section \<open>HTTP\<close>

definition QWEN_OAUTH_TOKEN_ENDPOINT :: jsstring where
  "QWEN_OAUTH_TOKEN_ENDPOINT = js ''https://chat.qwen.ai/api/v1/oauth2/token''"

definition QWEN_OAUTH_CLIENT_ID :: jsstring where
  "QWEN_OAUTH_CLIENT_ID = js ''f0304373b74a44d2b584a3fb70ca9e56''"

definition QWEN_OAUTH_GRANT_TYPE :: jsstring where
  "QWEN_OAUTH_GRANT_TYPE = js ''urn:ietf:params:oauth:grant-type:device_code''"

definition QWEN_USER_AGENT :: jsstring where
  "QWEN_USER_AGENT = js ''google-api-nodejs-client/9.15.1''"

definition QWEN_X_GOOG_API_CLIENT :: jsstring where
  "QWEN_X_GOOG_API_CLIENT = js ''gl-node/22.17.0''"

definition QWEN_CLIENT_METADATA :: jsstring where
  "QWEN_CLIENT_METADATA = js ''ideType=IDE_UNSPECIFIED,platform=PLATFORM_UNSPECIFIED,pluginType=GEMINI''"

definition requestTimeoutMs :: int where
  "requestTimeoutMs = 120000"

definition AbortError :: js_error where
  "AbortError = \<lparr>name = js ''AbortError'', message = js ''The operation was aborted.'', status = None, data = None\<rparr>"

text \<open>
  \<open>fetchWithTimeout\<close>: the request is sent; when \<open>fetch\<close> has not settled after
  \<open>requestTimeoutMs\<close> the controller aborts it and \<open>fetch\<close> rejects.
\<close>

definition fetchWithTimeout ::
  "('n, 'a) endpoint \<Rightarrow> request \<Rightarrow> 'n state \<Rightarrow> (js_error + 'a response) \<times> 'n state" where
  "fetchWithTimeout endpoint req st =
     (case endpoint req (server st) of
        (outcome, elapsed, server') \<Rightarrow>
          if int elapsed < requestTimeoutMs
          then (outcome,
                st\<lparr>clock := clock st + int elapsed, server := server', trace := trace st @ [Fetched req]\<rparr>)
          else (Inl AbortError,
                st\<lparr>clock := clock st + requestTimeoutMs, server := server',
                   trace := trace st @ [Fetched req]\<rparr>))"

definition readErrorResponse :: "int \<Rightarrow> jsstring \<Rightarrow> err_body \<Rightarrow> jsstring" where
  "readErrorResponse code statusText body =
     number_to_string code @ js '' '' @ statusText @ js '': '' @
       (case body of Json_body v rendering \<Rightarrow> rendering | Text_body t \<Rightarrow> t)"

definition buildHttpError :: "int \<Rightarrow> jsstring \<Rightarrow> err_body \<Rightarrow> js_error" where
  "buildHttpError code statusText body =
     \<lparr>name = js ''Error'',
      message = readErrorResponse code statusText body,
      status = Some code,
      data = (case body of Json_body v rendering \<Rightarrow> Some v | Text_body t \<Rightarrow> None)\<rparr>"

text \<open>
  \<open>postForm<T>\<close>. The endpoint is what \<open>fetch\<close> reaches at the URL; its responses carry JSON
  of the type \<open>T\<close> that the caller declares.
\<close>

definition postForm ::
  "('n, 'a) endpoint \<Rightarrow> jsstring \<Rightarrow> (jsstring \<times> jsstring) list \<Rightarrow> 'n state
     \<Rightarrow> (js_error + 'a) \<times> 'n state" where
  "postForm endpoint url params st =
     (case fetchWithTimeout endpoint (Form_post url params) st of
        (Inl err, st1) \<Rightarrow> (Inl err, st1)
      | (Inr (Response_not_ok code statusText body), st1) \<Rightarrow>
          (Inl (buildHttpError code statusText body), st1)
      | (Inr (Response_ok (Json v)), st1) \<Rightarrow> (Inr v, st1)
      | (Inr (Response_ok (Not_json t)), st1) \<Rightarrow> (Inl SyntaxError, st1))"

text \<open>\<open>extractError\<close>: the message when it is not empty, else \<open>String(error)\<close>.\<close>

definition extractError :: "js_error \<Rightarrow> jsstring" where
  "extractError err = (if message err \<noteq> [] then message err else name err)"

section \<open>Numbers\<close>

text \<open>
  A number of the source is a double. The model keeps the numbers it computes with as
  integers: an integral double is its value, and the integer \<open>2 ^ 1024\<close>, which is beyond
  every double, stands for \<open>Infinity\<close> (its negation for \<open>-Infinity\<close>).
\<close>

definition Infinity :: int where
  "Infinity = 2 ^ 1024"

fun bit_length :: "nat \<Rightarrow> nat" where
  "bit_length n = (if n = 0 then 0 else Suc (bit_length (n div 2)))"

declare bit_length.simps [simp del]

text \<open>
  Rounding to the 53 significant bits of a double, to the nearest value and to the even
  one of two nearest; \<open>m\<close> counts units of a power of two.
\<close>

definition round_to_double :: "nat \<Rightarrow> nat" where
  "round_to_double m =
     (let s = bit_length m - 53
      in if s = 0 then m
         else (let q = m div 2 ^ s; r = m mod 2 ^ s
               in (if 2 ^ (s - 1) < r \<or> (r = 2 ^ (s - 1) \<and> odd q) then q + 1 else q) * 2 ^ s))"

text \<open>
  \<open>Math.floor(x * 1.5)\<close>: the product is counted in halves, rounded to a double (to
  \<open>Infinity\<close> from \<open>2 ^ 1024\<close> on), and then floored.
\<close>

definition floor_times_1_5 :: "int \<Rightarrow> int" where
  "floor_times_1_5 x =
     (if Infinity \<le> x then Infinity
      else if x \<le> - Infinity then - Infinity
      else (let halves = int (round_to_double (nat \<bar>x * 3\<bar>))
            in if 2 * Infinity \<le> halves then (if x < 0 then - Infinity else Infinity)
               else if x < 0 then (- halves) div 2 else halves div 2))"

section \<open>pollForToken\<close>

definition token_failed_api :: jsstring where
  "token_failed_api =
     [0x4EE4, 0x724C, 0x83B7, 0x53D6, 0x5931, 0x8D25, 0xFF0C, 0x63A5, 0x53E3, 0x8FD4, 0x56DE, 0x3A, 0x20]"

definition token_failed :: jsstring where
  "token_failed = [0x4EE4, 0x724C, 0x83B7, 0x53D6, 0x5931, 0x8D25, 0x3A, 0x20]"

text \<open>The \<open>try\<close> block of one iteration of the polling loop.\<close>

definition pollForToken_try ::
  "('n, 'c) network \<Rightarrow> jsstring \<Rightarrow> jsstring \<Rightarrow> jsstring \<Rightarrow> 'n state
     \<Rightarrow> (js_error + QwenTokenData) \<times> 'n state" where
  "pollForToken_try net deviceCode codeVerifier email_arg st =
     (let params =
            [(js ''grant_type'', QWEN_OAUTH_GRANT_TYPE),
             (js ''client_id'', QWEN_OAUTH_CLIENT_ID),
             (js ''device_code'', deviceCode),
             (js ''code_verifier'', codeVerifier)]
      in case postForm (token_endpoint net) QWEN_OAUTH_TOKEN_ENDPOINT params st of
           (Inl err, st1) \<Rightarrow> (Inl err, st1)
         | (Inr response, st1) \<Rightarrow>
            (case toISOString (clock st1 + expires_in response * 1000) of
               Inl err \<Rightarrow> (Inl err, st1)
             | Inr expiry \<Rightarrow>
                (let tokenData =
                       \<lparr>access_token = access_token_resp response,
                        refresh_token = refresh_token_resp response,
                        token_type = token_type_resp response,
                        resource_url = resource_url_resp response,
                        expiry_date = expiry\<rparr>;
                     st2 = st1\<lparr>currentToken := Some tokenData, currentEmail := Some (trim email_arg)\<rparr>
                 in case saveTokenToStorage tokenData (trim email_arg) st2 of
                      (Inl err, st3) \<Rightarrow> (Inl err, st3)
                    | (Inr u, st3) \<Rightarrow> (Inr tokenData, st3))))"

text \<open>\<open>!errorData\<close> and \<open>errorData?.error\<close> on the \<open>data\<close> marker of the caught error.\<close>

definition falsy_data :: "error_json option \<Rightarrow> bool" where
  "falsy_data d = (case d of None \<Rightarrow> True | Some Json_falsy \<Rightarrow> True | Some (Json_truthy e) \<Rightarrow> False)"

definition error_member :: "error_json option \<Rightarrow> jsstring option" where
  "error_member d = (case d of Some (Json_truthy e) \<Rightarrow> e | Some Json_falsy \<Rightarrow> None | None \<Rightarrow> None)"

text \<open>
  The states of the poll: \<open>Pending\<close> with the interval of the next iteration, \<open>Success\<close>
  with the record that is returned, \<open>Failed\<close> with the error that is thrown.
\<close>

datatype poll_state = Pending int | Success QwenTokenData | Failed js_error

text \<open>One iteration of the \<open>while (true)\<close> loop: the \<open>try\<close> block and the \<open>catch\<close> clause.\<close>

definition pollForToken_iteration ::
  "('n, 'c) network \<Rightarrow> jsstring \<Rightarrow> jsstring \<Rightarrow> jsstring \<Rightarrow> int \<Rightarrow> 'n state
     \<Rightarrow> poll_state \<times> 'n state" where
  "pollForToken_iteration net deviceCode codeVerifier email_arg interval st =
     (case pollForToken_try net deviceCode codeVerifier email_arg st of
        (Inr tokenData, st1) \<Rightarrow> (Success tokenData, st1)
      | (Inl err, st1) \<Rightarrow>
          if status err = Some 400 \<and> falsy_data (data err) \<and> includes_js (message err) (js ''user_code'')
          then (Failed (new_Error (token_failed_api @ message err)), st1)
          else if status err = Some 400 \<and> error_member (data err) = Some (js ''authorization_pending'')
          then (Pending interval, sleep interval st1)
          else if status err = Some 400 \<and> error_member (data err) = Some (js ''slow_down'')
          then (let interval' = floor_times_1_5 interval
                in (Pending interval', sleep interval' st1))
          else (Failed (new_Error (token_failed @ extractError err)), st1))"

text \<open>
  The \<open>while (true)\<close> loop. It has no bound, so the function is partial: \<open>None\<close> stands
  for a poll that never returns.
\<close>

partial_function (option) pollForToken ::
  "('n, 'c) network \<Rightarrow> jsstring \<Rightarrow> jsstring \<Rightarrow> jsstring \<Rightarrow> int \<Rightarrow> 'n state
     \<Rightarrow> ((js_error + QwenTokenData) \<times> 'n state) option" where
  "pollForToken net deviceCode codeVerifier email_arg interval st =
     (case pollForToken_iteration net deviceCode codeVerifier email_arg interval st of
        (Success tokenData, st1) \<Rightarrow> Some (Inr tokenData, st1)
      | (Failed thrown, st1) \<Rightarrow> Some (Inl thrown, st1)
      | (Pending interval', st1) \<Rightarrow> pollForToken net deviceCode codeVerifier email_arg interval' st1)"

section \<open>refreshToken\<close>

text \<open>The operation that \<open>refreshToken\<close> hands to \<open>withRetry\<close>.\<close>

definition refreshToken_attempt ::
  "('n, 'c) network \<Rightarrow> jsstring \<Rightarrow> 'n state \<Rightarrow> (js_error + QwenTokenData) \<times> 'n state" where
  "refreshToken_attempt net refreshToken_arg st =
     (let params =
            [(js ''grant_type'', js ''refresh_token''),
             (js ''refresh_token'', refreshToken_arg),
             (js ''client_id'', QWEN_OAUTH_CLIENT_ID)]
      in case postForm (token_endpoint net) QWEN_OAUTH_TOKEN_ENDPOINT params st of
           (Inl err, st1) \<Rightarrow> (Inl err, st1)
         | (Inr response, st1) \<Rightarrow>
            (case toISOString (clock st1 + expires_in response * 1000) of
               Inl err \<Rightarrow> (Inl err, st1)
             | Inr expiry \<Rightarrow>
                (let tokenData =
                       \<lparr>access_token = access_token_resp response,
                        refresh_token =
                          Some (case refresh_token_resp response of
                                  Some r \<Rightarrow> if r \<noteq> [] then r else refreshToken_arg
                                | None \<Rightarrow> refreshToken_arg),
                        token_type = token_type_resp response,
                        resource_url = resource_url_resp response,
                        expiry_date = expiry\<rparr>;
                     st2 = st1\<lparr>currentToken := Some tokenData\<rparr>;
                     email_now =
                       (case currentEmail st2 of
                          Some e \<Rightarrow> if e \<noteq> [] then e else js ''unknown''
                        | None \<Rightarrow> js ''unknown'')
                 in case saveTokenToStorage tokenData email_now st2 of
                      (Inl err, st3) \<Rightarrow> (Inl err, st3)
                    | (Inr u, st3) \<Rightarrow> (Inr tokenData, st3))))"

definition refreshToken ::
  "('n, 'c) network \<Rightarrow> jsstring \<Rightarrow> 'n state \<Rightarrow> (js_error + QwenTokenData) \<times> 'n state" where
  "refreshToken net refreshToken_arg st =
     withRetry (refreshToken_attempt net refreshToken_arg) MAX_RETRIES RETRY_DELAY_MS st"

section \<open>sendRequest\<close>

definition no_valid_token :: jsstring where
  "no_valid_token =
     [0x672A, 0x627E, 0x5230, 0x6709, 0x6548, 0x7684, 0x4EE4, 0x724C, 0xFF0C, 0x8BF7, 0x5148, 0x8FDB,
      0x884C, 0x8BA4, 0x8BC1]"

text \<open>\<open>resource.replace(/\/$/, '')\<close>: one slash at the very end is removed.\<close>

definition strip_trailing_slash :: "jsstring \<Rightarrow> jsstring" where
  "strip_trailing_slash s = (if s \<noteq> [] \<and> last s = 0x2F then butlast s else s)"

definition buildBaseUrl :: "jsstring option \<Rightarrow> jsstring" where
  "buildBaseUrl resource =
     (case resource of
        Some r \<Rightarrow>
          if r \<noteq> [] \<and> length (trim r) > 0
          then js ''https://'' @ strip_trailing_slash r @ js ''/v1''
          else js ''https://portal.qwen.ai/v1''
      | None \<Rightarrow> js ''https://portal.qwen.ai/v1'')"

definition buildQwenHeaders :: "'n state \<Rightarrow> bool \<Rightarrow> (jsstring \<times> jsstring) list" where
  "buildQwenHeaders st stream_flag =
     [(js ''Content-Type'', js ''application/json''),
      (js ''Authorization'',
         js ''Bearer '' @ (case currentToken st of Some token \<Rightarrow> access_token token | None \<Rightarrow> [])),
      (js ''User-Agent'', QWEN_USER_AGENT),
      (js ''X-Goog-Api-Client'', QWEN_X_GOOG_API_CLIENT),
      (js ''Client-Metadata'', QWEN_CLIENT_METADATA),
      (js ''Accept'', if stream_flag then js ''text/event-stream'' else js ''application/json'')]"

text \<open>What \<open>sendRequest\<close> returns: the raw body of a streaming call, or the decoded JSON.\<close>

datatype 'c reply = Body_stream "'c ok_body" | Json_value 'c

text \<open>The operation that \<open>sendRequest\<close> hands to \<open>withRetry\<close>.\<close>

definition sendRequest_attempt ::
  "('n, 'c) network \<Rightarrow> QwenRequestOptions \<Rightarrow> 'n state \<Rightarrow> (js_error + 'c reply) \<times> 'n state" where
  "sendRequest_attempt net options st =
     (let baseUrl = buildBaseUrl (case currentToken st of Some token \<Rightarrow> resource_url token | None \<Rightarrow> None);
          apiUrl = baseUrl @ js ''/chat/completions'';
          headers = buildQwenHeaders st (stream options = Some True)
      in case fetchWithTimeout (chat_endpoint net) (Json_post apiUrl headers options) st of
           (Inl err, st1) \<Rightarrow> (Inl err, st1)
         | (Inr (Response_not_ok code statusText body), st1) \<Rightarrow>
             (Inl (new_Error (readErrorResponse code statusText body)), st1)
         | (Inr (Response_ok body), st1) \<Rightarrow>
             if stream options = Some True then (Inr (Body_stream body), st1)
             else (case body of
                     Json v \<Rightarrow> (Inr (Json_value v), st1)
                   | Not_json t \<Rightarrow> (Inl SyntaxError, st1)))"

text \<open>The part of \<open>sendRequest\<close> after a token has been found in memory.\<close>

definition sendRequest_with_token ::
  "('n, 'c) network \<Rightarrow> QwenRequestOptions \<Rightarrow> QwenTokenData \<Rightarrow> 'n state
     \<Rightarrow> (js_error + 'c reply) \<times> 'n state" where
  "sendRequest_with_token net options token st =
     (let dispatch = withRetry (sendRequest_attempt net options) MAX_RETRIES RETRY_DELAY_MS
      in case refresh_token token of
           Some r \<Rightarrow>
             if isTokenExpired (clock st) token \<and> r \<noteq> []
             then (case refreshToken net r st of
                     (Inl err, st1) \<Rightarrow> (Inl err, st1)
                   | (Inr refreshed, st1) \<Rightarrow> dispatch st1)
             else dispatch st
         | None \<Rightarrow> dispatch st)"

definition sendRequest ::
  "('n, 'c) network \<Rightarrow> QwenRequestOptions \<Rightarrow> 'n state \<Rightarrow> (js_error + 'c reply) \<times> 'n state" where
  "sendRequest net options st =
     (case currentToken st of
        Some token \<Rightarrow> sendRequest_with_token net options token st
      | None \<Rightarrow>
         (case loadTokenFromStorage st of
            (Inl err, st1) \<Rightarrow> (Inl err, st1)
          | (Inr loaded, st1) \<Rightarrow>
             (case currentToken st1 of
                None \<Rightarrow> (Inl (new_Error no_valid_token), st1)
              | Some token \<Rightarrow> sendRequest_with_token net options token st1)))"

section \<open>PKCE\<close>

text \<open>
  \<open>Buffer.toString('base64')\<close>: the base64 encoding of RFC 4648, section 4, with padding.
  Three bytes give four sextets; each sextet selects a character of the alphabet.
\<close>

definition base64_alphabet :: jsstring where
  "base64_alphabet = js ''ABCDEFGHIJKLMNOPQRSTUVWXYZabcdefghijklmnopqrstuvwxyz0123456789+/''"

definition sextet1 :: "8 word \<Rightarrow> 6 word" where
  "sextet1 a = ucast (drop_bit 2 a)"

definition sextet2 :: "8 word \<Rightarrow> 8 word \<Rightarrow> 6 word" where
  "sextet2 a b = ucast (push_bit 4 (a AND 3) OR drop_bit 4 b)"

definition sextet3 :: "8 word \<Rightarrow> 8 word \<Rightarrow> 6 word" where
  "sextet3 b c = ucast (push_bit 2 (b AND 15) OR drop_bit 6 c)"

definition sextet4 :: "8 word \<Rightarrow> 6 word" where
  "sextet4 c = ucast (c AND 63)"

definition base64_char :: "6 word \<Rightarrow> 16 word" where
  "base64_char v = base64_alphabet ! unat v"

fun base64 :: "8 word list \<Rightarrow> jsstring" where
  "base64 [] = []"
| "base64 [a] = [base64_char (sextet1 a), base64_char (sextet2 a 0), 0x3D, 0x3D]"
| "base64 [a, b] =
     [base64_char (sextet1 a), base64_char (sextet2 a b), base64_char (sextet3 b 0), 0x3D]"
| "base64 (a # b # c # bytes) =
     [base64_char (sextet1 a), base64_char (sextet2 a b), base64_char (sextet3 b c),
      base64_char (sextet4 c)] @ base64 bytes"

text \<open>\<open>replace(/\+/g, '-')\<close>, \<open>replace(/\//g, '_')\<close> and \<open>replace(/=+$/, '')\<close>.\<close>

definition replace_all :: "16 word \<Rightarrow> 16 word \<Rightarrow> jsstring \<Rightarrow> jsstring" where
  "replace_all c d s = map (\<lambda>x. if x = c then d else x) s"

definition strip_trailing_equals :: "jsstring \<Rightarrow> jsstring" where
  "strip_trailing_equals s = rev (dropWhile (\<lambda>x. x = 0x3D) (rev s))"

definition base64URLEncode :: "8 word list \<Rightarrow> jsstring" where
  "base64URLEncode str = strip_trailing_equals (replace_all 0x2F 0x5F (replace_all 0x2B 0x2D (base64 str)))"

text \<open>
  \<open>crypto.randomBytes\<close> and the SHA-256 digest of a string
  (\<open>createHash('sha256').update(verifier).digest()\<close>) belong to the runtime; they are
  parameters.
\<close>

definition generateCodeVerifier :: "(nat \<Rightarrow> 8 word list) \<Rightarrow> jsstring" where
  "generateCodeVerifier randomBytes = base64URLEncode (randomBytes 32)"

definition generateCodeChallenge :: "(jsstring \<Rightarrow> 8 word list) \<Rightarrow> jsstring \<Rightarrow> jsstring" where
  "generateCodeChallenge sha256 verifier = base64URLEncode (sha256 verifier)"

text \<open>The first two statements of the operation of \<open>initiateDeviceFlow\<close>: the verifier and
  the challenge that is sent with the device-code request.\<close>

definition initiateDeviceFlow_pkce ::
  "(nat \<Rightarrow> 8 word list) \<Rightarrow> (jsstring \<Rightarrow> 8 word list) \<Rightarrow> jsstring \<times> jsstring" where
  "initiateDeviceFlow_pkce randomBytes sha256 =
     (let codeVerifier = generateCodeVerifier randomBytes;
          codeChallenge = generateCodeChallenge sha256 codeVerifier
      in (codeVerifier, codeChallenge))"

text \<open>
  The base64url encoding without padding, as RFC 4648 (section 5, with section 3.2) defines
  it: the alphabet ends in \<open>-\<close> and \<open>_\<close>, and a final group of one or two bytes gives two or
  three characters.
\<close>

definition base64url_alphabet :: jsstring where
  "base64url_alphabet = js ''ABCDEFGHIJKLMNOPQRSTUVWXYZabcdefghijklmnopqrstuvwxyz0123456789-_''"

definition base64url_char :: "6 word \<Rightarrow> 16 word" where
  "base64url_char v = base64url_alphabet ! unat v"

fun base64url_unpadded :: "8 word list \<Rightarrow> jsstring" where
  "base64url_unpadded [] = []"
| "base64url_unpadded [a] = [base64url_char (sextet1 a), base64url_char (sextet2 a 0)]"
| "base64url_unpadded [a, b] =
     [base64url_char (sextet1 a), base64url_char (sextet2 a b), base64url_char (sextet3 b 0)]"
| "base64url_unpadded (a # b # c # bytes) =
     [base64url_char (sextet1 a), base64url_char (sextet2 a b), base64url_char (sextet3 b c),
      base64url_char (sextet4 c)] @ base64url_unpadded bytes"

section \<open>initiateDeviceFlow\<close>







section \<open>Vocabulary of the statements\<close>

text \<open>The request that every iteration of \<open>pollForToken\<close> sends.\<close>

definition poll_request :: "jsstring \<Rightarrow> jsstring \<Rightarrow> request" where
  "poll_request deviceCode codeVerifier =
     Form_post QWEN_OAUTH_TOKEN_ENDPOINT
       [(js ''grant_type'', QWEN_OAUTH_GRANT_TYPE),
        (js ''client_id'', QWEN_OAUTH_CLIENT_ID),
        (js ''device_code'', deviceCode),
        (js ''code_verifier'', codeVerifier)]"

text \<open>An HTTP 400 response whose JSON body is an object with the given \<open>error\<close> code.\<close>

definition oauth_error_400 :: "jsstring \<Rightarrow> jsstring \<Rightarrow> jsstring \<Rightarrow> 'a response" where
  "oauth_error_400 statusText code rendering =
     Response_not_ok 400 statusText (Json_body (Json_truthy (Some code)) rendering)"

text \<open>The state at the moment \<open>fetch\<close> has settled, \<open>elapsed\<close> milliseconds after the request.\<close>

definition settled :: "request \<Rightarrow> nat \<Rightarrow> 'n \<Rightarrow> 'n state \<Rightarrow> 'n state" where
  "settled req elapsed server' st =
     st\<lparr>clock := clock st + int elapsed, server := server', trace := trace st @ [Fetched req]\<rparr>"

text \<open>The token record made from a token response that is received at time \<open>now\<close>.\<close>

definition issued_token :: "QwenTokenResponse \<Rightarrow> int \<Rightarrow> QwenTokenData" where
  "issued_token response now =
     \<lparr>access_token = access_token_resp response,
      refresh_token = refresh_token_resp response,
      token_type = token_type_resp response,
      resource_url = resource_url_resp response,
      expiry_date = Date_text (now + expires_in response * 1000)\<rparr>"

text \<open>The envelope that \<open>saveTokenToStorage\<close> writes at time \<open>now\<close>.\<close>

definition envelope_of :: "QwenTokenData \<Rightarrow> jsstring \<Rightarrow> int \<Rightarrow> QwenTokenStorage" where
  "envelope_of token email_arg now =
     \<lparr>access_token_st = access_token token,
      refresh_token_st = refresh_token token,
      last_refresh = Date_text now,
      resource_url_st = resource_url token,
      email_st = email_arg,
      type_st = js ''qwen'',
      expired = expiry_date token\<rparr>"

text \<open>The \<open>email\<close> member of the envelope stored at the token path.\<close>

definition persisted_email :: "'n state \<Rightarrow> jsstring option" where
  "persisted_email st =
     (case files st (tokenStoragePath st) of
        Some (Regular_file (Envelope_text storageData)) \<Rightarrow> Some (email_st storageData)
      | Some (Regular_file Unparseable_text) \<Rightarrow> None
      | Some Directory \<Rightarrow> None
      | None \<Rightarrow> None)"

text \<open>The expiry instant of the record that a poll has returned.\<close>

definition returned_expiry :: "((js_error + QwenTokenData) \<times> 'n state) option \<Rightarrow> int option" where
  "returned_expiry r =
     (case r of
        Some (Inr tokenData, st) \<Rightarrow> parseExpiry (expiry_date tokenData)
      | Some (Inl err, st) \<Rightarrow> None
      | None \<Rightarrow> None)"

text \<open>The request that every attempt of \<open>refreshToken\<close> sends.\<close>

definition refresh_request :: "jsstring \<Rightarrow> request" where
  "refresh_request refreshToken_arg =
     Form_post QWEN_OAUTH_TOKEN_ENDPOINT
       [(js ''grant_type'', js ''refresh_token''),
        (js ''refresh_token'', refreshToken_arg),
        (js ''client_id'', QWEN_OAUTH_CLIENT_ID)]"

text \<open>The token record made from a refresh response received at time \<open>now\<close>, and the email
  under which \<open>refreshToken\<close> stores it.\<close>

definition refreshed_token :: "QwenTokenResponse \<Rightarrow> jsstring \<Rightarrow> int \<Rightarrow> QwenTokenData" where
  "refreshed_token response refreshToken_arg now =
     \<lparr>access_token = access_token_resp response,
      refresh_token =
        Some (case refresh_token_resp response of
                Some r \<Rightarrow> if r \<noteq> [] then r else refreshToken_arg
              | None \<Rightarrow> refreshToken_arg),
      token_type = token_type_resp response,
      resource_url = resource_url_resp response,
      expiry_date = Date_text (now + expires_in response * 1000)\<rparr>"

definition email_or_unknown :: "jsstring option \<Rightarrow> jsstring" where
  "email_or_unknown e = (case e of Some v \<Rightarrow> if v \<noteq> [] then v else js ''unknown'' | None \<Rightarrow> js ''unknown'')"

text \<open>
  What the retry loop of \<open>sendRequest\<close> may do: sleep, or send the chat request with the
  given access token as its bearer. A form POST (a refresh) and a warning are not among
  these events.
\<close>

definition downstream_event :: "jsstring \<Rightarrow> QwenRequestOptions \<Rightarrow> event \<Rightarrow> bool" where
  "downstream_event token options ev =
     (case ev of
        Slept ms \<Rightarrow> True
      | Fetched (Json_post url headers sent) \<Rightarrow>
          sent = options \<and> map_of headers (js ''Authorization'') = Some (js ''Bearer '' @ token)
      | Fetched (Form_post url params) \<Rightarrow> False
      | Warned err \<Rightarrow> False)"

text \<open>The two replacements of \<open>base64URLEncode\<close> on one character.\<close>

definition url_char_of :: "16 word \<Rightarrow> 16 word" where
  "url_char_of x = (if (if x = 0x2B then 0x2D else x) = 0x2F then 0x5F else (if x = 0x2B then 0x2D else x))"


section \<open>Example inputs\<close>

definition initial_state :: "nat state" where
  "initial_state =
     \<lparr>tokenStoragePath = js ''/home/u/.qwen/qwen-token.json'',
      currentToken = None,
      currentEmail = None,
      clock = 1700000000000,
      files = Map.empty,
      writable = True,
      server = 0,
      trace = []\<rparr>"

text \<open>An error with a status marker, and operations that count their invocations in \<open>server\<close>.\<close>

definition status_error :: "int \<Rightarrow> js_error" where
  "status_error code = \<lparr>name = js ''Error'', message = js ''rejected'', status = Some code, data = None\<rparr>"

definition rejected_op :: "int \<Rightarrow> nat state \<Rightarrow> (js_error + nat) \<times> nat state" where
  "rejected_op code st = (Inl (status_error code), st\<lparr>server := Suc (server st)\<rparr>)"

definition flaky_op :: "nat \<Rightarrow> nat state \<Rightarrow> (js_error + nat) \<times> nat state" where
  "flaky_op k st =
     (if server st < k then Inl (new_Error (js ''timeout '' @ digits (server st))) else Inr (server st),
      st\<lparr>server := Suc (server st)\<rparr>)"

text \<open>A server that answers the requests to the token endpoint from a script, one entry per
  request, and counts the requests in its state; the chat endpoint answers with the
  \<open>Authorization\<close> header it was sent.\<close>

definition network_failure :: js_error where
  "network_failure = \<lparr>name = js ''TypeError'', message = js ''fetch failed'', status = None, data = None\<rparr>"

definition scripted :: "((js_error + 'a response) \<times> nat) list \<Rightarrow> (nat, 'a) endpoint" where
  "scripted script req n =
     (if n < length script then (fst (script ! n), snd (script ! n), Suc n)
      else (Inl network_failure, 0, Suc n))"

definition echo_authorization :: "(nat, jsstring) endpoint" where
  "echo_authorization req n =
     (case req of
        Json_post url headers options \<Rightarrow>
          (case map_of headers (js ''Authorization'') of
             Some v \<Rightarrow> (Inr (Response_ok (Json v)), 0, n)
           | None \<Rightarrow> (Inr (Response_not_ok 401 (js ''Unauthorized'') (Text_body [])), 0, n))
      | Form_post url params \<Rightarrow> (Inr (Response_not_ok 404 (js ''Not Found'') (Text_body [])), 0, n))"

definition stub_network ::
  "((js_error + QwenTokenResponse response) \<times> nat) list \<Rightarrow> (nat, jsstring) network" where
  "stub_network script = \<lparr>token_endpoint = scripted script, chat_endpoint = echo_authorization\<rparr>"

text \<open>\<open>JSON.stringify({error: code})\<close> for a code that needs no escaping.\<close>

definition render_error_object :: "jsstring \<Rightarrow> jsstring" where
  "render_error_object code = [0x7B, 0x22] @ js ''error'' @ [0x22, 0x3A, 0x22] @ code @ [0x22, 0x7D]"

definition oauth_error :: "jsstring \<Rightarrow> (js_error + QwenTokenResponse response) \<times> nat" where
  "oauth_error code = (Inr (oauth_error_400 (js ''Bad Request'') code (render_error_object code)), 0)"

definition token_payload :: "jsstring \<Rightarrow> int \<Rightarrow> QwenTokenResponse" where
  "token_payload token secs =
     \<lparr>access_token_resp = token,
      refresh_token_resp = Some (js ''refresh-1''),
      token_type_resp = js ''Bearer'',
      resource_url_resp = None,
      expires_in = secs\<rparr>"

definition token_issued :: "jsstring \<Rightarrow> int \<Rightarrow> (js_error + QwenTokenResponse response) \<times> nat" where
  "token_issued token secs = (Inr (Response_ok (Json (token_payload token secs))), 0)"

definition device_code :: jsstring where "device_code = js ''DC123''"

definition code_verifier :: jsstring where "code_verifier = js ''v1''"

definition example_token :: QwenTokenData where
  "example_token =
     \<lparr>access_token = js ''tok-A'',
      refresh_token = Some (js ''refresh-1''),
      token_type = js ''MAC'',
      resource_url = None,
      expiry_date = Date_text 1700003600000\<rparr>"

definition expired_token :: QwenTokenData where
  "expired_token =
     \<lparr>access_token = js ''tok-A'',
      refresh_token = Some (js ''refresh-0''),
      token_type = js ''Bearer'',
      resource_url = None,
      expiry_date = Date_text 1600000000000\<rparr>"

definition expired_state :: "nat state" where
  "expired_state = initial_state\<lparr>currentToken := Some expired_token, currentEmail := Some (js ''user@example.com'')\<rparr>"

definition chat_options :: QwenRequestOptions where
  "chat_options = \<lparr>model = js ''qwen3-coder-plus'', messages = [User_message (js ''hi'')], stream = None\<rparr>"



text \<open>The octets of the code verifier and of its SHA-256 digest in RFC 7636, appendix B.\<close>

definition rfc7636_verifier_octets :: "8 word list" where
  "rfc7636_verifier_octets =
     [116, 24, 223, 180, 151, 153, 224, 37, 79, 250, 96, 125, 216, 173, 187, 186,
      22, 212, 37, 77, 105, 214, 191, 240, 91, 88, 5, 88, 83, 132, 141, 121]"

definition rfc7636_digest_octets :: "8 word list" where
  "rfc7636_digest_octets =
     [19, 211, 30, 150, 26, 26, 216, 236, 47, 22, 177, 12, 76, 152, 46, 8,
      118, 168, 120, 173, 109, 241, 68, 86, 110, 225, 137, 74, 203, 112, 249, 195]"




section \<open>Properties of withRetry\<close>

lemma withRetry_loop_returns:
  "attempt \<le> retries \<Longrightarrow> fn st = (Inr v, st') \<Longrightarrow>
   withRetry_loop fn retries delay attempt lastError st = (Inr v, st')"
  by (subst withRetry_loop.simps) simp

lemma withRetry_loop_aborts:
  "attempt \<le> retries \<Longrightarrow> fn st = (Inl err, st') \<Longrightarrow> no_retry err \<Longrightarrow>
   withRetry_loop fn retries delay attempt lastError st = (Inl err, st')"
  by (subst withRetry_loop.simps) (simp add: no_retry_def)

lemma withRetry_loop_retries:
  "attempt < retries \<Longrightarrow> fn st = (Inl err, st') \<Longrightarrow> \<not> no_retry err \<Longrightarrow>
   withRetry_loop fn retries delay attempt lastError st =
   withRetry_loop fn retries delay (attempt + 1) (Some err) (sleep (delay * attempt) st')"
  by (subst withRetry_loop.simps) (simp add: no_retry_def)

lemma withRetry_loop_exhausted:
  "attempt = retries \<Longrightarrow> fn st = (Inl err, st') \<Longrightarrow> \<not> no_retry err \<Longrightarrow>
   withRetry_loop fn retries delay attempt lastError st = (Inl err, st')"
  by (subst withRetry_loop.simps, simp add: no_retry_def, subst withRetry_loop.simps, simp)

lemma withRetry_loop_skips_failures:
  "int n < retries \<Longrightarrow> \<forall>k<n. fails_retryably (fn (before_attempt fn delay k st)) \<Longrightarrow>
   \<exists>lastError'. withRetry_loop fn retries delay 1 lastError st =
     withRetry_loop fn retries delay (1 + int n) lastError' (before_attempt fn delay n st)"
proof (induction n)
  case 0
  then show ?case by auto
next
  case (Suc n)
  then obtain le where le: "withRetry_loop fn retries delay 1 lastError st =
     withRetry_loop fn retries delay (1 + int n) le (before_attempt fn delay n st)"
    by auto
  from Suc.prems have "fails_retryably (fn (before_attempt fn delay n st))" by simp
  then obtain err st' where f: "fn (before_attempt fn delay n st) = (Inl err, st')" "\<not> no_retry err"
    by (cases "fn (before_attempt fn delay n st)") (auto simp: fails_retryably_def split: sum.splits)
  from Suc.prems have "1 + int n < retries" by simp
  from withRetry_loop_retries [of "1 + int n" retries fn "before_attempt fn delay n st" err st' delay le] this f
  have "withRetry_loop fn retries delay (1 + int n) le (before_attempt fn delay n st) =
        withRetry_loop fn retries delay (1 + int (Suc n)) (Some err) (before_attempt fn delay (Suc n) st)"
    using f by (simp add: algebra_simps)
  with le show ?case by auto
qed

text \<open>
  Claim C1. When the operation throws an error whose status marker is 401, 403 or 400 on
  the first attempt, \<open>withRetry\<close> (with at least one attempt allowed) ends with exactly
  that error, in exactly the state the one invocation left: the operation is not invoked
  again and no sleep is made.
\<close>

theorem withRetry_aborts_on_auth_status:
  assumes "1 \<le> retries"
    and "fn st = (Inl err, st')"
    and "status err = Some 401 \<or> status err = Some 403 \<or> status err = Some 400"
  shows "withRetry fn retries delay st = (Inl err, st')"
  unfolding withRetry_def
  using assms withRetry_loop_aborts [of 1 retries fn st err st' delay None]
  by (simp add: no_retry_def)

text \<open>
  Claim C2. When the operation throws errors that are not fatal on the first two attempts
  and returns on the third, \<open>withRetry\<close> returns that value; between the invocations it
  sleeps \<open>delay * 1\<close> and then \<open>delay * 2\<close>, and nothing else happens. When all \<open>n\<close>
  attempts throw errors that are not fatal, attempt \<open>k\<close> is followed by a sleep of
  \<open>delay * k\<close> for \<open>k < n\<close>, and the outcome is that of the last invocation: its error
  is thrown, with no sleep after it.
\<close>

theorem withRetry_linear_backoff:
  "(3 \<le> retries \<and> fn st = (Inl e1, st1) \<and> \<not> no_retry e1
      \<and> fn (sleep (delay * 1) st1) = (Inl e2, st2) \<and> \<not> no_retry e2
      \<and> fn (sleep (delay * 2) st2) = (Inr v, st3)
      \<longrightarrow> withRetry fn retries delay st = (Inr v, st3))
   \<and> (0 < n \<and> (\<forall>k<n. fails_retryably (fn (before_attempt fn delay k st)))
      \<longrightarrow> withRetry fn (int n) delay st = fn (before_attempt fn delay (n - 1) st)
        \<and> isl (fst (withRetry fn (int n) delay st)))"
proof (rule conjI; rule impI)
  assume a: "3 \<le> retries \<and> fn st = (Inl e1, st1) \<and> \<not> no_retry e1
      \<and> fn (sleep (delay * 1) st1) = (Inl e2, st2) \<and> \<not> no_retry e2
      \<and> fn (sleep (delay * 2) st2) = (Inr v, st3)"
  have "withRetry fn retries delay st = withRetry_loop fn retries delay 2 (Some e1) (sleep (delay * 1) st1)"
    unfolding withRetry_def using a withRetry_loop_retries [of 1 retries fn st e1 st1 delay None] by simp
  also have "\<dots> = withRetry_loop fn retries delay 3 (Some e2) (sleep (delay * 2) st2)"
    using a withRetry_loop_retries [of 2 retries fn "sleep (delay * 1) st1" e2 st2 delay "Some e1"] by simp
  also have "\<dots> = (Inr v, st3)"
    using a withRetry_loop_returns [of 3 retries fn "sleep (delay * 2) st2" v st3 delay "Some e2"] by simp
  finally show "withRetry fn retries delay st = (Inr v, st3)" .
next
  assume a: "0 < n \<and> (\<forall>k<n. fails_retryably (fn (before_attempt fn delay k st)))"
  then obtain m where m: "n = Suc m" by (cases n) auto
  from a m have "\<forall>k<m. fails_retryably (fn (before_attempt fn delay k st))" by simp
  from withRetry_loop_skips_failures [of m "int n" fn delay st None] this m
  obtain le where le: "withRetry_loop fn (int n) delay 1 None st =
     withRetry_loop fn (int n) delay (1 + int m) le (before_attempt fn delay m st)" by auto
  from a m have "fails_retryably (fn (before_attempt fn delay m st))" by simp
  then obtain err st' where f: "fn (before_attempt fn delay m st) = (Inl err, st')" "\<not> no_retry err"
    by (cases "fn (before_attempt fn delay m st)") (auto simp: fails_retryably_def split: sum.splits)
  have "withRetry_loop fn (int n) delay (1 + int m) le (before_attempt fn delay m st) = (Inl err, st')"
    using m f withRetry_loop_exhausted [of "1 + int m" "int n" fn "before_attempt fn delay m st" err st' delay le] by simp
  with le f m show "withRetry fn (int n) delay st = fn (before_attempt fn delay (n - 1) st)
        \<and> isl (fst (withRetry fn (int n) delay st))"
    by (simp add: withRetry_def)
qed

theorem withRetry_aborts_on_auth_status_witness:
  "withRetry (rejected_op 401) MAX_RETRIES RETRY_DELAY_MS initial_state =
     (Inl (status_error 401), initial_state\<lparr>server := 1\<rparr>)
   \<and> server (snd (withRetry (rejected_op 401) MAX_RETRIES RETRY_DELAY_MS initial_state)) = 1
   \<and> trace (snd (withRetry (rejected_op 401) MAX_RETRIES RETRY_DELAY_MS initial_state)) = []"
  using withRetry_aborts_on_auth_status
    [of MAX_RETRIES "rejected_op 401" initial_state "status_error 401" "initial_state\<lparr>server := 1\<rparr>" RETRY_DELAY_MS]
  by (simp add: MAX_RETRIES_def rejected_op_def status_error_def initial_state_def)

theorem withRetry_linear_backoff_witness:
  "withRetry (flaky_op 2) MAX_RETRIES RETRY_DELAY_MS initial_state =
     (Inr 2, initial_state\<lparr>clock := 1700000006000, server := 3, trace := [Slept 2000, Slept 4000]\<rparr>)
   \<and> fst (withRetry (flaky_op 5) MAX_RETRIES RETRY_DELAY_MS initial_state) = Inl (new_Error (js ''timeout 4''))
   \<and> trace (snd (withRetry (flaky_op 5) MAX_RETRIES RETRY_DELAY_MS initial_state)) =
       [Slept 2000, Slept 4000, Slept 6000, Slept 8000]
   \<and> server (snd (withRetry (flaky_op 5) MAX_RETRIES RETRY_DELAY_MS initial_state)) = 5"
proof -
  have a: "withRetry (flaky_op 2) MAX_RETRIES RETRY_DELAY_MS initial_state =
     (Inr 2, initial_state\<lparr>clock := 1700000006000, server := 3, trace := [Slept 2000, Slept 4000]\<rparr>)"
    using withRetry_linear_backoff
      [of MAX_RETRIES "flaky_op 2" initial_state "new_Error (js ''timeout 0'')" "initial_state\<lparr>server := 1\<rparr>"
        RETRY_DELAY_MS "new_Error (js ''timeout 1'')"
        "initial_state\<lparr>clock := 1700000002000, server := 2, trace := [Slept 2000]\<rparr>" 2
        "initial_state\<lparr>clock := 1700000006000, server := 3, trace := [Slept 2000, Slept 4000]\<rparr>" 0]
    by (simp add: MAX_RETRIES_def RETRY_DELAY_MS_def flaky_op_def initial_state_def js_def sleep_def timer_delay_def
        no_retry_def new_Error_def)
  have b: "withRetry (flaky_op 5) MAX_RETRIES RETRY_DELAY_MS initial_state =
      flaky_op 5 (before_attempt (flaky_op 5) RETRY_DELAY_MS 4 initial_state)"
    using withRetry_linear_backoff
      [of 0 "flaky_op 5" initial_state "new_Error []" initial_state RETRY_DELAY_MS "new_Error []" initial_state 0
        initial_state 5]
    by (simp add: MAX_RETRIES_def RETRY_DELAY_MS_def flaky_op_def initial_state_def js_def sleep_def timer_delay_def
        no_retry_def new_Error_def fails_retryably_def less_Suc_eq eval_nat_numeral)
  have c: "before_attempt (flaky_op 5) RETRY_DELAY_MS 4 initial_state =
      initial_state\<lparr>clock := 1700000020000, server := 4,
        trace := [Slept 2000, Slept 4000, Slept 6000, Slept 8000]\<rparr>"
    by (simp add: RETRY_DELAY_MS_def flaky_op_def initial_state_def sleep_def timer_delay_def eval_nat_numeral)
  show ?thesis
    unfolding a b c by (simp add: flaky_op_def initial_state_def js_def new_Error_def)
qed

section \<open>Properties of pollForToken\<close>

lemma fetch_settles:
  "endpoint req (server st) = (outcome, elapsed, server') \<Longrightarrow> int elapsed < requestTimeoutMs \<Longrightarrow>
   fetchWithTimeout endpoint req st = (outcome, settled req elapsed server' st)"
  by (simp add: fetchWithTimeout_def settled_def)

lemma postForm_400:
  assumes "token_endpoint net (Form_post url params) (server st) = (Inr (oauth_error_400 text code rendering), elapsed, server')"
    and "int elapsed < requestTimeoutMs"
  shows "\<exists>err. postForm (token_endpoint net) url params st =
       (Inl err, settled (Form_post url params) elapsed server' st)
     \<and> status err = Some 400 \<and> data err = Some (Json_truthy (Some code))"
  using assms fetch_settles [of "token_endpoint net" "Form_post url params" st
      "Inr (oauth_error_400 text code rendering)" elapsed server']
  by (simp add: postForm_def oauth_error_400_def buildHttpError_def)

lemma poll_try_400:
  assumes "token_endpoint net (poll_request deviceCode codeVerifier) (server st) = (Inr (oauth_error_400 text code rendering), elapsed, server')"
    and "int elapsed < requestTimeoutMs"
  shows "\<exists>err. pollForToken_try net deviceCode codeVerifier email_arg st =
      (Inl err, settled (poll_request deviceCode codeVerifier) elapsed server' st)
     \<and> status err = Some 400 \<and> data err = Some (Json_truthy (Some code))"
proof -
  from postForm_400 [OF assms [unfolded poll_request_def]]
  obtain err where "postForm (token_endpoint net) QWEN_OAUTH_TOKEN_ENDPOINT
       [(js ''grant_type'', QWEN_OAUTH_GRANT_TYPE),
        (js ''client_id'', QWEN_OAUTH_CLIENT_ID),
        (js ''device_code'', deviceCode),
        (js ''code_verifier'', codeVerifier)] st = (Inl err, settled (poll_request deviceCode codeVerifier) elapsed server' st)"
     "status err = Some 400" "data err = Some (Json_truthy (Some code))"
    by (auto simp: poll_request_def)
  then show ?thesis by (simp add: pollForToken_try_def)
qed

lemma poll_iteration_pending:
  assumes "token_endpoint net (poll_request deviceCode codeVerifier) (server st) =
      (Inr (oauth_error_400 text (js ''authorization_pending'') rendering), elapsed, server')"
    and "int elapsed < requestTimeoutMs"
  shows "pollForToken_iteration net deviceCode codeVerifier email_arg interval st =
     (Pending interval, sleep interval (settled (poll_request deviceCode codeVerifier) elapsed server' st))"
proof -
  from poll_try_400 [OF assms, of email_arg] obtain err where
    e: "pollForToken_try net deviceCode codeVerifier email_arg st =
      (Inl err, settled (poll_request deviceCode codeVerifier) elapsed server' st)"
     "status err = Some 400" "data err = Some (Json_truthy (Some (js ''authorization_pending'')))"
    by auto
  show ?thesis
    by (simp add: pollForToken_iteration_def e falsy_data_def error_member_def)
qed

lemma poll_pending_step:
  assumes "token_endpoint net (poll_request deviceCode codeVerifier) (server st) =
      (Inr (oauth_error_400 text (js ''authorization_pending'') rendering), elapsed, server')"
    and "int elapsed < requestTimeoutMs"
  shows "pollForToken net deviceCode codeVerifier email_arg interval st =
     pollForToken net deviceCode codeVerifier email_arg interval
       (sleep interval (settled (poll_request deviceCode codeVerifier) elapsed server' st))"
  by (subst pollForToken.simps) (simp add: poll_iteration_pending [OF assms])

lemma poll_iteration_slow_down:
  assumes "token_endpoint net (poll_request deviceCode codeVerifier) (server st) =
      (Inr (oauth_error_400 text (js ''slow_down'') rendering), elapsed, server')"
    and "int elapsed < requestTimeoutMs"
  shows "pollForToken_iteration net deviceCode codeVerifier email_arg interval st =
     (Pending (floor_times_1_5 interval),
      sleep (floor_times_1_5 interval) (settled (poll_request deviceCode codeVerifier) elapsed server' st))"
proof -
  from poll_try_400 [OF assms, of email_arg] obtain err where
    e: "pollForToken_try net deviceCode codeVerifier email_arg st =
      (Inl err, settled (poll_request deviceCode codeVerifier) elapsed server' st)"
     "status err = Some 400" "data err = Some (Json_truthy (Some (js ''slow_down'')))"
    by auto
  have ne: "js ''slow_down'' \<noteq> js ''authorization_pending''" by (simp add: js_def)
  show ?thesis
    by (simp add: pollForToken_iteration_def e falsy_data_def error_member_def ne Let_def)
qed

lemma poll_slow_down_step:
  assumes "token_endpoint net (poll_request deviceCode codeVerifier) (server st) =
      (Inr (oauth_error_400 text (js ''slow_down'') rendering), elapsed, server')"
    and "int elapsed < requestTimeoutMs"
  shows "pollForToken net deviceCode codeVerifier email_arg interval st =
     pollForToken net deviceCode codeVerifier email_arg (floor_times_1_5 interval)
       (sleep (floor_times_1_5 interval) (settled (poll_request deviceCode codeVerifier) elapsed server' st))"
  by (subst pollForToken.simps) (simp add: poll_iteration_slow_down [OF assms])

lemma save_ok:
  "writable st \<Longrightarrow> files st (tokenStoragePath st) \<noteq> Some Directory \<Longrightarrow>
   saveTokenToStorage token email_arg st =
     (Inr (), st\<lparr>files := (files st)(tokenStoragePath st \<mapsto>
        Regular_file (Envelope_text (envelope_of token email_arg (clock st))))\<rparr>)"
  by (simp add: saveTokenToStorage_def mkdir_def writeFile_def envelope_of_def)

lemma poll_success_step:
  assumes "token_endpoint net (poll_request deviceCode codeVerifier) (server st) =
      (Inr (Response_ok (Json response)), elapsed, server')"
    and "int elapsed < requestTimeoutMs"
    and "\<bar>clock st + int elapsed + expires_in response * 1000\<bar> \<le> max_time_value"
    and "writable st" and "files st (tokenStoragePath st) \<noteq> Some Directory"
  shows "pollForToken net deviceCode codeVerifier email_arg interval st =
     Some (Inr (issued_token response (clock st + int elapsed)),
       (settled (poll_request deviceCode codeVerifier) elapsed server' st)
         \<lparr>currentToken := Some (issued_token response (clock st + int elapsed)),
          currentEmail := Some (trim email_arg),
          files := (files st)(tokenStoragePath st \<mapsto> Regular_file (Envelope_text
             (envelope_of (issued_token response (clock st + int elapsed)) (trim email_arg)
                (clock st + int elapsed))))\<rparr>)"
proof -
  let ?st1 = "settled (poll_request deviceCode codeVerifier) elapsed server' st"
  have p: "postForm (token_endpoint net) QWEN_OAUTH_TOKEN_ENDPOINT
       [(js ''grant_type'', QWEN_OAUTH_GRANT_TYPE),
        (js ''client_id'', QWEN_OAUTH_CLIENT_ID),
        (js ''device_code'', deviceCode),
        (js ''code_verifier'', codeVerifier)] st = (Inr response, ?st1)"
    using assms(1,2) fetch_settles [of "token_endpoint net" "poll_request deviceCode codeVerifier" st
      "Inr (Response_ok (Json response))" elapsed server']
    by (simp add: postForm_def poll_request_def)
  have c: "clock ?st1 = clock st + int elapsed" "writable ?st1" "files ?st1 = files st"
    "tokenStoragePath ?st1 = tokenStoragePath st"
    using assms by (simp_all add: settled_def)
  have t: "pollForToken_try net deviceCode codeVerifier email_arg st =
     (Inr (issued_token response (clock st + int elapsed)),
       ?st1\<lparr>currentToken := Some (issued_token response (clock st + int elapsed)),
          currentEmail := Some (trim email_arg),
          files := (files st)(tokenStoragePath st \<mapsto> Regular_file (Envelope_text
             (envelope_of (issued_token response (clock st + int elapsed)) (trim email_arg)
                (clock st + int elapsed))))\<rparr>)"
    using assms(3-5)
    by (simp add: pollForToken_try_def p c toISOString_def Let_def save_ok issued_token_def)
  show ?thesis
    by (subst pollForToken.simps) (simp add: pollForToken_iteration_def t)
qed

lemma bit_length_le: "m < 2 ^ n \<Longrightarrow> bit_length m \<le> n"
proof (induction n arbitrary: m)
  case 0
  then show ?case by (simp add: bit_length.simps)
next
  case (Suc n)
  then have "m div 2 < 2 ^ n" by simp
  from Suc.IH [OF this] show ?case
    by (subst bit_length.simps) simp
qed

lemma floor_times_1_5_exact:
  assumes "\<bar>x\<bar> * 3 < 2 ^ 53"
  shows "floor_times_1_5 x = \<lfloor>real_of_int x * 1.5\<rfloor>"
proof -
  have "nat \<bar>x * 3\<bar> < 2 ^ 53"
    using assms by (simp add: abs_mult nat_less_iff)
  then have "bit_length (nat \<bar>x * 3\<bar>) \<le> 53" by (rule bit_length_le)
  then have r: "round_to_double (nat \<bar>x * 3\<bar>) = nat \<bar>x * 3\<bar>"
    by (simp add: round_to_double_def)
  have b: "\<bar>x * 3\<bar> < 2 ^ 53" using assms by (simp add: abs_mult)
  have "(2::int) ^ 53 \<le> 2 ^ 1024" by (rule power_increasing) simp_all
  with b have "\<bar>x\<bar> < Infinity" "\<bar>x * 3\<bar> < 2 * Infinity"
    by (simp_all add: Infinity_def abs_mult)
  then have i: "\<not> Infinity \<le> x" "\<not> x \<le> - Infinity" "\<not> 2 * Infinity \<le> \<bar>x * 3\<bar>"
    by linarith+
  have "floor_times_1_5 x = (x * 3) div 2"
    using i by (simp add: floor_times_1_5_def r Let_def)
  moreover have "real_of_int x * 1.5 = real_of_int (x * 3) / real_of_int 2" by simp
  then have "\<lfloor>real_of_int x * 1.5\<rfloor> = (x * 3) div 2" by (simp only: floor_divide_of_int_eq)
  ultimately show ?thesis by simp
qed

lemma floor_times_1_5_of_5000: "floor_times_1_5 5000 = 7500"
proof -
  have "floor_times_1_5 5000 = \<lfloor>real_of_int 5000 * 1.5\<rfloor>"
    by (rule floor_times_1_5_exact) simp
  then show ?thesis by simp
qed

text \<open>Above \<open>2 ^ 53\<close> the product is rounded to the nearest double, ties to even, before the
  floor is taken.\<close>

lemma bit_length_numeral:
  "bit_length (numeral (Num.Bit0 k)) = Suc (bit_length (numeral k))"
  "bit_length (numeral (Num.Bit1 k)) = Suc (bit_length (numeral k))"
  "bit_length (Suc 0) = Suc 0" "bit_length 1 = Suc 0" "bit_length 0 = 0"
  by (subst bit_length.simps, simp)+

lemma floor_times_1_5_rounds:
  "floor_times_1_5 6004799503160661 = 9007199254740992"
  "floor_times_1_5 (- 6004799503160661) = - 9007199254740992"
  "floor_times_1_5 6004799503160662 = 9007199254740992"
  "floor_times_1_5 6004799503160663 = 9007199254740994"
  by (simp_all add: floor_times_1_5_def round_to_double_def Infinity_def Let_def bit_length_numeral)


lemma pollForToken_pending_pending_success:
  assumes "token_endpoint net (poll_request deviceCode codeVerifier) (server st) =
             (Inr (oauth_error_400 t1 (js ''authorization_pending'') r1), l1, n1)"
    and "token_endpoint net (poll_request deviceCode codeVerifier) n1 =
             (Inr (oauth_error_400 t2 (js ''authorization_pending'') r2), l2, n2)"
    and "token_endpoint net (poll_request deviceCode codeVerifier) n2 =
             (Inr (Response_ok (Json response)), l3, n3)"
    and "int l1 < requestTimeoutMs" and "int l2 < requestTimeoutMs" and "int l3 < requestTimeoutMs"
    and "received = clock st + int l1 + timer_delay interval + int l2 + timer_delay interval + int l3"
    and "\<bar>received + expires_in response * 1000\<bar> \<le> max_time_value"
    and "writable st" and "files st (tokenStoragePath st) \<noteq> Some Directory"
  shows "\<exists>tokenData st'.
     pollForToken net deviceCode codeVerifier email_arg interval st = Some (Inr tokenData, st')
     \<and> clock st' = received
     \<and> expiry_date tokenData = Date_text (received + expires_in response * 1000)
     \<and> trace st' = trace st @
         [Fetched (poll_request deviceCode codeVerifier), Slept interval,
          Fetched (poll_request deviceCode codeVerifier), Slept interval,
          Fetched (poll_request deviceCode codeVerifier)]
     \<and> currentToken st' = Some tokenData
     \<and> files st' (tokenStoragePath st') =
         Some (Regular_file (Envelope_text (envelope_of tokenData (trim email_arg) received)))"
proof -
  let ?req = "poll_request deviceCode codeVerifier"
  let ?s1 = "sleep interval (settled ?req l1 n1 st)"
  let ?s2 = "sleep interval (settled ?req l2 n2 ?s1)"
  have a: "pollForToken net deviceCode codeVerifier email_arg interval st =
           pollForToken net deviceCode codeVerifier email_arg interval ?s1"
    using assms(1,4) by (rule poll_pending_step)
  have "token_endpoint net ?req (server ?s1) =
          (Inr (oauth_error_400 t2 (js ''authorization_pending'') r2), l2, n2)"
    using assms(2) by (simp add: sleep_def timer_delay_def settled_def)
  then have b: "pollForToken net deviceCode codeVerifier email_arg interval ?s1 =
           pollForToken net deviceCode codeVerifier email_arg interval ?s2"
    using assms(5) by (rule poll_pending_step)
  have c1: "token_endpoint net ?req (server ?s2) = (Inr (Response_ok (Json response)), l3, n3)"
    using assms(3) by (simp add: sleep_def timer_delay_def settled_def)
  have c2: "clock ?s2 + int l3 = received"
    using assms(7) by (simp add: sleep_def timer_delay_def settled_def)
  have c3: "\<bar>clock ?s2 + int l3 + expires_in response * 1000\<bar> \<le> max_time_value"
    using assms(8) c2 by simp
  have c4: "writable ?s2" "files ?s2 (tokenStoragePath ?s2) \<noteq> Some Directory"
    using assms(9,10) by (simp_all add: sleep_def timer_delay_def settled_def)
  note c = poll_success_step [OF c1 assms(6) c3 c4, where email_arg = email_arg and interval = interval,
      unfolded c2]
  show ?thesis
    unfolding a b c
    by (simp add: issued_token_def sleep_def timer_delay_def settled_def assms(7))
qed

lemma scripted_0: "scripted (x # xs) req 0 = (fst x, snd x, 1)"
  by (simp add: scripted_def)

lemma scripted_1: "scripted (x # y # xs) req (Suc 0) = (fst y, snd y, 2)"
  by (simp add: scripted_def)

lemma scripted_2: "scripted (x # y # z # xs) req 2 = (fst z, snd z, 3)"
  by (simp add: scripted_def)

lemmas stub_simps = stub_network_def scripted_0 scripted_1 scripted_2 oauth_error_def token_issued_def
  initial_state_def requestTimeoutMs_def max_time_value_def token_payload_def

text \<open>
  Claim C3, amended. When the token endpoint answers the request of the poll with HTTP 400
  and the error code \<open>authorization_pending\<close> twice and then with a token payload,
  \<open>pollForToken\<close> returns the token record, and exactly this happens: request, timer set
  to the interval, request, timer set to the interval, request. A timer set to the interval
  fires after the interval when the interval lies between 1 and 2147483647 ms, and after
  1 ms otherwise (\<open>timer_delay\<close>). The expiry of the record is the instant at which the
  token response is received plus \<open>expires_in\<close> seconds, that is the start of the poll plus
  the time of the three requests and of the two timers plus \<open>expires_in\<close> seconds. The
  record becomes the current token and is stored at once, at the token path, with the email
  trimmed.
\<close>

theorem poll_pending_twice_then_success:
  assumes "token_endpoint net (poll_request deviceCode codeVerifier) (server st) =
             (Inr (oauth_error_400 t1 (js ''authorization_pending'') r1), l1, n1)"
    and "token_endpoint net (poll_request deviceCode codeVerifier) n1 =
             (Inr (oauth_error_400 t2 (js ''authorization_pending'') r2), l2, n2)"
    and "token_endpoint net (poll_request deviceCode codeVerifier) n2 =
             (Inr (Response_ok (Json response)), l3, n3)"
    and "int l1 < requestTimeoutMs" and "int l2 < requestTimeoutMs" and "int l3 < requestTimeoutMs"
    and "received = clock st + int l1 + timer_delay interval + int l2 + timer_delay interval + int l3"
    and "\<bar>received + expires_in response * 1000\<bar> \<le> max_time_value"
    and "writable st" and "files st (tokenStoragePath st) \<noteq> Some Directory"
  shows "\<exists>tokenData st'.
     pollForToken net deviceCode codeVerifier email_arg interval st = Some (Inr tokenData, st')
     \<and> clock st' = received
     \<and> expiry_date tokenData = Date_text (received + expires_in response * 1000)
     \<and> trace st' = trace st @
         [Fetched (poll_request deviceCode codeVerifier), Slept interval,
          Fetched (poll_request deviceCode codeVerifier), Slept interval,
          Fetched (poll_request deviceCode codeVerifier)]
     \<and> currentToken st' = Some tokenData
     \<and> files st' (tokenStoragePath st') =
         Some (Regular_file (Envelope_text (envelope_of tokenData (trim email_arg) received)))"
  using assms by (rule pollForToken_pending_pending_success)

theorem poll_pending_twice_then_success_witness:
  "(\<exists>tokenData st'.
     pollForToken
       (stub_network [oauth_error (js ''authorization_pending''), oauth_error (js ''authorization_pending''),
          token_issued (js ''tok-A'') 3600])
       device_code code_verifier (js ''user@example.com'') 5000 initial_state = Some (Inr tokenData, st')
     \<and> clock st' = 1700000010000
     \<and> expiry_date tokenData = Date_text 1700003610000
     \<and> trace st' =
         [Fetched (poll_request device_code code_verifier), Slept 5000,
          Fetched (poll_request device_code code_verifier), Slept 5000,
          Fetched (poll_request device_code code_verifier)])
   \<and> (\<exists>tokenData st'.
     pollForToken
       (stub_network [oauth_error (js ''authorization_pending''), oauth_error (js ''authorization_pending''),
          token_issued (js ''tok-A'') 3600])
       device_code code_verifier (js ''user@example.com'') 3000000000 initial_state =
         Some (Inr tokenData, st')
     \<and> clock st' = 1700000000002
     \<and> expiry_date tokenData = Date_text 1700003600002
     \<and> trace st' =
         [Fetched (poll_request device_code code_verifier), Slept 3000000000,
          Fetched (poll_request device_code code_verifier), Slept 3000000000,
          Fetched (poll_request device_code code_verifier)])"
proof -
  let ?net = "stub_network [oauth_error (js ''authorization_pending''),
    oauth_error (js ''authorization_pending''), token_issued (js ''tok-A'') 3600]"
  have a: "\<exists>tokenData st'.
     pollForToken ?net device_code code_verifier (js ''user@example.com'') 5000 initial_state =
       Some (Inr tokenData, st')
     \<and> clock st' = 1700000010000
     \<and> expiry_date tokenData = Date_text 1700003610000
     \<and> trace st' =
         [Fetched (poll_request device_code code_verifier), Slept 5000,
          Fetched (poll_request device_code code_verifier), Slept 5000,
          Fetched (poll_request device_code code_verifier)]"
    using poll_pending_twice_then_success
      [of ?net device_code code_verifier initial_state
        "js ''Bad Request''" "render_error_object (js ''authorization_pending'')" 0 1
        "js ''Bad Request''" "render_error_object (js ''authorization_pending'')" 0 2
        "token_payload (js ''tok-A'') 3600" 0 3 1700000010000 5000 "js ''user@example.com''"]
    by (simp add: stub_simps timer_delay_def) blast
  have b: "\<exists>tokenData st'.
     pollForToken ?net device_code code_verifier (js ''user@example.com'') 3000000000 initial_state =
       Some (Inr tokenData, st')
     \<and> clock st' = 1700000000002
     \<and> expiry_date tokenData = Date_text 1700003600002
     \<and> trace st' =
         [Fetched (poll_request device_code code_verifier), Slept 3000000000,
          Fetched (poll_request device_code code_verifier), Slept 3000000000,
          Fetched (poll_request device_code code_verifier)]"
    using poll_pending_twice_then_success
      [of ?net device_code code_verifier initial_state
        "js ''Bad Request''" "render_error_object (js ''authorization_pending'')" 0 1
        "js ''Bad Request''" "render_error_object (js ''authorization_pending'')" 0 2
        "token_payload (js ''tok-A'') 3600" 0 3 1700000000002 3000000000 "js ''user@example.com''"]
    by (simp add: stub_simps timer_delay_def) blast
  from a b show ?thesis by blast
qed

text \<open>
  The claim as stated fails: with an interval of 5000 ms and a server that answers at
  once, the expiry of the returned record is 10 seconds later than the start of the poll
  plus 3600 seconds.
\<close>

theorem poll_expiry_counterexample:
  "returned_expiry
     (pollForToken
       (stub_network [oauth_error (js ''authorization_pending''), oauth_error (js ''authorization_pending''),
          token_issued (js ''tok-A'') 3600])
       device_code code_verifier (js ''user@example.com'') 5000 initial_state) = Some 1700003610000
   \<and> clock initial_state = 1700000000000
   \<and> \<not> \<bar>1700003610000 - (1700000000000 + 3600 * 1000)\<bar> \<le> (1000::int)"
proof -
  from pollForToken_pending_pending_success
    [of "stub_network [oauth_error (js ''authorization_pending''), oauth_error (js ''authorization_pending''),
          token_issued (js ''tok-A'') 3600]" device_code code_verifier initial_state
      "js ''Bad Request''" "render_error_object (js ''authorization_pending'')" 0 1
      "js ''Bad Request''" "render_error_object (js ''authorization_pending'')" 0 2
      "token_payload (js ''tok-A'') 3600" 0 3 1700000010000 5000 "js ''user@example.com''"]
  obtain tokenData st' where
    "pollForToken
       (stub_network [oauth_error (js ''authorization_pending''), oauth_error (js ''authorization_pending''),
          token_issued (js ''tok-A'') 3600])
       device_code code_verifier (js ''user@example.com'') 5000 initial_state = Some (Inr tokenData, st')"
    "expiry_date tokenData = Date_text 1700003610000"
    by (simp add: stub_simps timer_delay_def) blast
  then show ?thesis
    by (simp add: returned_expiry_def parseExpiry_def max_time_value_def initial_state_def)
qed

text \<open>
  Claim C4. On an HTTP 400 response with the error code \<open>slow_down\<close> the iteration ends in
  the state \<open>Pending\<close> (it neither returns nor throws), with the interval replaced by
  \<open>Math.floor(interval * 1.5)\<close> and after a sleep of that new interval, and the poll goes on
  from there. While three times the interval is below \<open>2 ^ 53\<close>, the product is exact and the
  new interval is the floor of 1.5 times the interval. An interval of 5000 ms gives a sleep
  of 7500 ms, which lasts 7500 ms.
\<close>

theorem poll_slow_down_interval:
  assumes "token_endpoint net (poll_request deviceCode codeVerifier) (server st) =
      (Inr (oauth_error_400 text (js ''slow_down'') rendering), elapsed, server')"
    and "int elapsed < requestTimeoutMs"
    and "received = settled (poll_request deviceCode codeVerifier) elapsed server' st"
  shows "pollForToken_iteration net deviceCode codeVerifier email_arg interval st =
       (Pending (floor_times_1_5 interval), sleep (floor_times_1_5 interval) received)
     \<and> pollForToken net deviceCode codeVerifier email_arg interval st =
       pollForToken net deviceCode codeVerifier email_arg (floor_times_1_5 interval)
         (sleep (floor_times_1_5 interval) received)
     \<and> trace (sleep (floor_times_1_5 interval) received) =
         trace st @ [Fetched (poll_request deviceCode codeVerifier), Slept (floor_times_1_5 interval)]
     \<and> (\<bar>interval\<bar> * 3 < 2 ^ 53 \<longrightarrow> floor_times_1_5 interval = \<lfloor>real_of_int interval * 1.5\<rfloor>)
     \<and> (interval = 5000 \<longrightarrow>
         pollForToken_iteration net deviceCode codeVerifier email_arg interval st =
           (Pending 7500, sleep 7500 received)
         \<and> clock (sleep 7500 received) = clock received + 7500)"
proof (intro conjI impI)
  show i: "pollForToken_iteration net deviceCode codeVerifier email_arg interval st =
       (Pending (floor_times_1_5 interval), sleep (floor_times_1_5 interval) received)"
    unfolding assms(3) using assms(1,2) by (rule poll_iteration_slow_down)
  show "pollForToken net deviceCode codeVerifier email_arg interval st =
       pollForToken net deviceCode codeVerifier email_arg (floor_times_1_5 interval)
         (sleep (floor_times_1_5 interval) received)"
    unfolding assms(3) using assms(1,2) by (rule poll_slow_down_step)
  show "trace (sleep (floor_times_1_5 interval) received) =
         trace st @ [Fetched (poll_request deviceCode codeVerifier), Slept (floor_times_1_5 interval)]"
    by (simp add: assms(3) sleep_def settled_def)
  show "floor_times_1_5 interval = \<lfloor>real_of_int interval * 1.5\<rfloor>" if "\<bar>interval\<bar> * 3 < 2 ^ 53"
    using that by (rule floor_times_1_5_exact)
  show "pollForToken_iteration net deviceCode codeVerifier email_arg interval st =
           (Pending 7500, sleep 7500 received)" if "interval = 5000"
    using i that by (simp add: floor_times_1_5_of_5000)
  show "clock (sleep 7500 received) = clock received + 7500"
    by (simp add: sleep_def timer_delay_def)
qed

theorem poll_slow_down_interval_witness:
  "\<exists>tokenData st'.
     pollForToken (stub_network [oauth_error (js ''slow_down''), token_issued (js ''tok-A'') 3600])
       device_code code_verifier (js ''user@example.com'') 5000 initial_state = Some (Inr tokenData, st')
     \<and> trace st' =
         [Fetched (poll_request device_code code_verifier), Slept 7500,
          Fetched (poll_request device_code code_verifier)]
     \<and> clock st' = 1700000007500"
proof -
  let ?net = "stub_network [oauth_error (js ''slow_down''), token_issued (js ''tok-A'') 3600]"
  let ?req = "poll_request device_code code_verifier"
  let ?s1 = "sleep 7500 (settled ?req 0 1 initial_state)"
  have "\<bar>5000\<bar> * 3 < (2::int) ^ 53" by simp
  with poll_slow_down_interval [of ?net device_code code_verifier initial_state "js ''Bad Request''"
        "render_error_object (js ''slow_down'')" 0 1 "settled ?req 0 1 initial_state"
        "js ''user@example.com''" 5000]
  have a: "pollForToken ?net device_code code_verifier (js ''user@example.com'') 5000 initial_state =
      pollForToken ?net device_code code_verifier (js ''user@example.com'') 7500 ?s1"
    by (simp add: stub_simps)
  have b: "token_endpoint ?net ?req (server ?s1) =
      (Inr (Response_ok (Json (token_payload (js ''tok-A'') 3600))), 0, 2)"
    by (simp add: stub_simps sleep_def settled_def)
  have c: "int 0 < requestTimeoutMs"
    "\<bar>clock ?s1 + int 0 + expires_in (token_payload (js ''tok-A'') 3600) * 1000\<bar> \<le> max_time_value"
    "writable ?s1" "files ?s1 (tokenStoragePath ?s1) \<noteq> Some Directory"
    by (simp_all add: stub_simps sleep_def timer_delay_def settled_def)
  show ?thesis
    unfolding a poll_success_step [OF b c]
    by (simp add: sleep_def timer_delay_def settled_def initial_state_def)
qed

lemma pollForToken_try_persists:
  "pollForToken_try net deviceCode codeVerifier email_arg st = (Inr tokenData, st1) \<Longrightarrow>
   persisted_email st1 = Some (trim email_arg)"
  by (auto simp: pollForToken_try_def saveTokenToStorage_def mkdir_def writeFile_def Let_def
      persisted_email_def split: prod.splits sum.splits if_splits)

lemma pollForToken_returns_from_try:
  assumes "pollForToken net deviceCode codeVerifier email_arg interval st = Some r"
  shows "\<forall>tokenData st'. r = (Inr tokenData, st') \<longrightarrow>
     (\<exists>s. pollForToken_try net deviceCode codeVerifier email_arg s = (Inr tokenData, st'))"
proof (rule pollForToken.raw_induct
    [where P = "\<lambda>net dc cv em i s r. \<forall>tokenData st'. r = (Inr tokenData, st') \<longrightarrow>
        (\<exists>s. pollForToken_try net dc cv em s = (Inr tokenData, st'))", OF _ assms])
  fix poll :: "('a, 'b) network \<Rightarrow> jsstring \<Rightarrow> jsstring \<Rightarrow> jsstring \<Rightarrow> int \<Rightarrow> 'a state
     \<Rightarrow> ((js_error + QwenTokenData) \<times> 'a state) option"
  fix net deviceCode codeVerifier email_arg interval st r
  assume IH: "\<And>net deviceCode codeVerifier email_arg interval st r.
      poll net deviceCode codeVerifier email_arg interval st = Some r \<Longrightarrow>
      \<forall>tokenData st'. r = (Inr tokenData, st') \<longrightarrow>
        (\<exists>s. pollForToken_try net deviceCode codeVerifier email_arg s = (Inr tokenData, st'))"
  assume body: "(case pollForToken_iteration net deviceCode codeVerifier email_arg interval st of
      (Pending interval', st1) \<Rightarrow> poll net deviceCode codeVerifier email_arg interval' st1
      | (Success tokenData, st1) \<Rightarrow> Some (Inr tokenData, st1)
      | (Failed thrown, st1) \<Rightarrow> Some (Inl thrown, st1)) = Some r"
  obtain a st1 where t: "pollForToken_try net deviceCode codeVerifier email_arg st = (a, st1)"
    by (cases "pollForToken_try net deviceCode codeVerifier email_arg st")
  show "\<forall>tokenData st'. r = (Inr tokenData, st') \<longrightarrow>
        (\<exists>s. pollForToken_try net deviceCode codeVerifier email_arg s = (Inr tokenData, st'))"
  proof (cases a)
    case (Inr tokenData)
    with t body show ?thesis
      by (auto simp: pollForToken_iteration_def)
  next
    case (Inl err)
    with t body IH show ?thesis
      by (auto simp: pollForToken_iteration_def Let_def split: if_splits)
  qed
qed

lemma pollForToken_returns_persisted:
  assumes "pollForToken net deviceCode codeVerifier email_arg interval st = Some r"
  shows "\<forall>tokenData st'. r = (Inr tokenData, st') \<longrightarrow> persisted_email st' = Some (trim email_arg)"
  using pollForToken_returns_from_try [OF assms] pollForToken_try_persists
  by blast

lemma trim_unchanged:
  "s = [] \<or> (\<not> is_whitespace (hd s) \<and> \<not> is_whitespace (last s)) \<Longrightarrow> trim s = s"
proof (cases "s = []")
  case True
  then show ?thesis by (simp add: trim_def)
next
  case False
  assume "s = [] \<or> (\<not> is_whitespace (hd s) \<and> \<not> is_whitespace (last s))"
  with False have h: "\<not> is_whitespace (hd s)" "\<not> is_whitespace (last s)" by auto
  have a: "dropWhile is_whitespace s = s"
    using h(1) by (simp add: dropWhile_eq_self_iff)
  have b: "dropWhile is_whitespace (rev s) = rev s"
    using h(2) False by (simp add: dropWhile_eq_self_iff hd_rev)
  show ?thesis by (simp add: trim_def a b)
qed

lemma trim_example: "trim (js '' user@example.com '') = js ''user@example.com''"
  by (simp add: trim_def js_def is_whitespace_def)

lemma poll_success_persists:
  assumes "token_endpoint net (poll_request deviceCode codeVerifier) (server st) =
      (Inr (Response_ok (Json response)), elapsed, server')"
    and "int elapsed < requestTimeoutMs"
    and "\<bar>clock st + int elapsed + expires_in response * 1000\<bar> \<le> max_time_value"
    and "writable st" and "files st (tokenStoragePath st) \<noteq> Some Directory"
  shows "\<exists>tokenData st1. pollForToken net deviceCode codeVerifier email_arg interval st = Some (Inr tokenData, st1)
     \<and> persisted_email st1 = Some (trim email_arg)"
  unfolding poll_success_step [OF assms]
  by (simp add: persisted_email_def settled_def envelope_of_def)

text \<open>
  Claim C9, amended. Whenever \<open>pollForToken\<close> returns a token record, the envelope stored
  at the token path has as its \<open>email\<close> the value passed to the poll with the white space
  at both ends removed; a token response received while the storage can be written makes
  the poll return so. The stored value is the value passed when that has no white space
  at its ends.
\<close>

theorem poll_persists_trimmed_email:
  "(pollForToken net deviceCode codeVerifier email_arg interval st = Some (Inr tokenData, st')
      \<longrightarrow> persisted_email st' = Some (trim email_arg))
   \<and> (token_endpoint net (poll_request deviceCode codeVerifier) (server st) =
        (Inr (Response_ok (Json response)), elapsed, server')
      \<and> int elapsed < requestTimeoutMs
      \<and> \<bar>clock st + int elapsed + expires_in response * 1000\<bar> \<le> max_time_value
      \<and> writable st \<and> files st (tokenStoragePath st) \<noteq> Some Directory
      \<longrightarrow> (\<exists>tokenData st1.
            pollForToken net deviceCode codeVerifier email_arg interval st = Some (Inr tokenData, st1)
            \<and> persisted_email st1 = Some (trim email_arg)))
   \<and> (email_arg = [] \<or> (\<not> is_whitespace (hd email_arg) \<and> \<not> is_whitespace (last email_arg))
      \<longrightarrow> trim email_arg = email_arg)"
  using pollForToken_returns_persisted [of net deviceCode codeVerifier email_arg interval st "(Inr tokenData, st')"]
    poll_success_persists [of net deviceCode codeVerifier st response elapsed server' email_arg interval]
    trim_unchanged [of email_arg]
  by blast

theorem poll_persists_trimmed_email_witness:
  "\<exists>tokenData st1.
     pollForToken (stub_network [token_issued (js ''tok-A'') 7200]) device_code code_verifier
       (js ''user@example.com'') 5000 initial_state = Some (Inr tokenData, st1)
     \<and> persisted_email st1 = Some (js ''user@example.com'')"
proof -
  let ?net = "stub_network [token_issued (js ''tok-A'') 7200]"
  note t = poll_persists_trimmed_email [of ?net device_code code_verifier "js ''user@example.com''" 5000
      initial_state _ _ "token_payload (js ''tok-A'') 7200" 0 1]
  have e: "trim (js ''user@example.com'') = js ''user@example.com''"
    using t by (simp add: js_def is_whitespace_def)
  have "\<exists>tokenData st1.
     pollForToken ?net device_code code_verifier (js ''user@example.com'') 5000 initial_state =
       Some (Inr tokenData, st1)
     \<and> persisted_email st1 = Some (trim (js ''user@example.com''))"
    using t by (simp add: stub_simps)
  then show ?thesis unfolding e .
qed

text \<open>
  The claim as stated fails for an email with white space at its ends: the stored email
  differs from the value passed.
\<close>

theorem poll_email_counterexample:
  "map_option (persisted_email \<circ> snd)
     (pollForToken (stub_network [token_issued (js ''tok-A'') 7200]) device_code code_verifier
       (js '' user@example.com '') 5000 initial_state) = Some (Some (js ''user@example.com''))
   \<and> js ''user@example.com'' \<noteq> js '' user@example.com ''"
proof -
  from poll_success_persists [of "stub_network [token_issued (js ''tok-A'') 7200]" device_code code_verifier
      initial_state "token_payload (js ''tok-A'') 7200" 0 1 "js '' user@example.com ''" 5000]
  obtain tokenData st1 where
    "pollForToken (stub_network [token_issued (js ''tok-A'') 7200]) device_code code_verifier
       (js '' user@example.com '') 5000 initial_state = Some (Inr tokenData, st1)"
    "persisted_email st1 = Some (trim (js '' user@example.com ''))"
    by (simp add: stub_simps) blast
  then show ?thesis by (simp add: trim_example) (simp add: js_def)
qed

section \<open>Properties of the token storage\<close>

lemma load_after_save:
  assumes "saveTokenToStorage token email_arg st = (Inr u, st1)"
  shows "loadTokenFromStorage st1 =
     (Inr (Some \<lparr>access_token = access_token token, refresh_token = refresh_token token,
                 token_type = js ''Bearer'', resource_url = resource_url token,
                 expiry_date = expiry_date token\<rparr>),
      st1\<lparr>currentToken := Some \<lparr>access_token = access_token token, refresh_token = refresh_token token,
                 token_type = js ''Bearer'', resource_url = resource_url token,
                 expiry_date = expiry_date token\<rparr>,
          currentEmail := Some email_arg\<rparr>)"
  using assms
  by (auto simp: saveTokenToStorage_def mkdir_def writeFile_def loadTokenFromStorage_def
      loadTokenFromStorage_try_def readFile_def JSON_parse_def Let_def split: if_splits)

text \<open>
  Claim C7. For every token record and every email, when \<open>saveTokenToStorage\<close> has
  succeeded, \<open>loadTokenFromStorage\<close> returns a record with the same access token, the
  same refresh token and the same expiry (the same timestamp text, hence the same instant).
  The save succeeds whenever the storage can be written and the token path is not a
  directory.
\<close>

theorem save_then_load_round_trip:
  "(saveTokenToStorage token email_arg st = (Inr u, st1) \<longrightarrow>
      (\<exists>loaded st2. loadTokenFromStorage st1 = (Inr (Some loaded), st2)
         \<and> access_token loaded = access_token token
         \<and> refresh_token loaded = refresh_token token
         \<and> expiry_date loaded = expiry_date token
         \<and> parseExpiry (expiry_date loaded) = parseExpiry (expiry_date token)))
   \<and> (writable st \<and> files st (tokenStoragePath st) \<noteq> Some Directory \<longrightarrow>
      (\<exists>st1. saveTokenToStorage token email_arg st = (Inr (), st1)))"
  using load_after_save [of token email_arg st u st1] save_ok [of st token email_arg]
  by auto

theorem save_then_load_round_trip_witness:
  "\<exists>st1 loaded st2.
     saveTokenToStorage example_token (js ''user@example.com'') initial_state = (Inr (), st1)
     \<and> loadTokenFromStorage st1 = (Inr (Some loaded), st2)
     \<and> access_token loaded = js ''tok-A''
     \<and> refresh_token loaded = Some (js ''refresh-1'')
     \<and> expiry_date loaded = Date_text 1700003600000"
proof -
  obtain st1 where s: "saveTokenToStorage example_token (js ''user@example.com'') initial_state = (Inr (), st1)"
    using save_then_load_round_trip [of example_token "js ''user@example.com''" initial_state]
    by (auto simp: initial_state_def)
  from save_then_load_round_trip [of example_token "js ''user@example.com''" initial_state "()" st1] s
  show ?thesis by (auto simp: example_token_def)
qed







lemma withRetry_loop_success_is_attempt:
  "withRetry_loop fn retries delay attempt lastError st = (Inr v, st') \<Longrightarrow> \<exists>s. fn s = (Inr v, st')"
proof (induction fn retries delay attempt lastError st rule: withRetry_loop.induct)
  case (1 fn retries delay attempt lastError st)
  show ?case
  proof (cases "attempt \<le> retries")
    case False
    with "1.prems" show ?thesis
      by (subst (asm) withRetry_loop.simps) (simp split: option.splits)
  next
    case True
    obtain a s1 where f: "fn st = (a, s1)" by (cases "fn st")
    show ?thesis
    proof (cases a)
      case (Inr w)
      with True f "1.prems" show ?thesis
        by (subst (asm) withRetry_loop.simps) auto
    next
      case (Inl err)
      show ?thesis
      proof (cases "status err = Some 401 \<or> status err = Some 403 \<or> status err = Some 400")
        case fatal: True
        with True f Inl "1.prems" show ?thesis
          by (subst (asm) withRetry_loop.simps) auto
      next
        case nonfatal: False
        show ?thesis
        proof (cases "attempt < retries")
          case lt: True
          from "1.prems" True f Inl nonfatal lt
          have "withRetry_loop fn retries delay (attempt + 1) (Some err) (sleep (delay * attempt) s1) = (Inr v, st')"
            by (subst (asm) withRetry_loop.simps) simp
          with "1.IH"(1) [OF True f [symmetric] Inl nonfatal lt] show ?thesis by simp
        next
          case ge: False
          from "1.prems" True f Inl nonfatal ge
          have "withRetry_loop fn retries delay (attempt + 1) (Some err) s1 = (Inr v, st')"
            by (subst (asm) withRetry_loop.simps) simp
          with "1.IH"(2) [OF True f [symmetric] Inl nonfatal ge] show ?thesis by simp
        qed
      qed
    qed
  qed
qed


text \<open>
  Claim C10. For every envelope at the token path, \<open>loadTokenFromStorage\<close> returns a
  record whose \<open>token_type\<close> is \<open>Bearer\<close>. What \<open>saveTokenToStorage\<close> does is the
  same whatever the \<open>token_type\<close> of the record (the envelope has no such member), so a
  save followed by a load gives \<open>Bearer\<close>, not the type that was saved.
\<close>

theorem load_token_type_is_Bearer:
  "(files st (tokenStoragePath st) = Some (Regular_file (Envelope_text storageData)) \<longrightarrow>
      (\<exists>loaded st'. loadTokenFromStorage st = (Inr (Some loaded), st') \<and> token_type loaded = js ''Bearer''))
   \<and> saveTokenToStorage (token\<lparr>token_type := other\<rparr>) email_arg st = saveTokenToStorage token email_arg st
   \<and> (saveTokenToStorage token email_arg st = (Inr u, st1) \<longrightarrow>
      (\<exists>loaded st2. loadTokenFromStorage st1 = (Inr (Some loaded), st2) \<and> token_type loaded = js ''Bearer''))"
proof (intro conjI impI)
  assume "files st (tokenStoragePath st) = Some (Regular_file (Envelope_text storageData))"
  then show "\<exists>loaded st'. loadTokenFromStorage st = (Inr (Some loaded), st') \<and> token_type loaded = js ''Bearer''"
    by (simp add: loadTokenFromStorage_def loadTokenFromStorage_try_def readFile_def JSON_parse_def Let_def)
next
  show "saveTokenToStorage (token\<lparr>token_type := other\<rparr>) email_arg st = saveTokenToStorage token email_arg st"
    by (simp add: saveTokenToStorage_def)
next
  assume "saveTokenToStorage token email_arg st = (Inr u, st1)"
  from load_after_save [OF this]
  show "\<exists>loaded st2. loadTokenFromStorage st1 = (Inr (Some loaded), st2) \<and> token_type loaded = js ''Bearer''"
    by simp
qed

theorem load_token_type_is_Bearer_witness:
  "token_type example_token = js ''MAC''
   \<and> js ''MAC'' \<noteq> js ''Bearer''
   \<and> (\<exists>st1 loaded st2.
        saveTokenToStorage example_token (js ''user@example.com'') initial_state = (Inr (), st1)
        \<and> loadTokenFromStorage st1 = (Inr (Some loaded), st2)
        \<and> token_type loaded = js ''Bearer'')"
proof -
  obtain st1 where s: "saveTokenToStorage example_token (js ''user@example.com'') initial_state = (Inr (), st1)"
    using save_ok [of initial_state example_token "js ''user@example.com''"]
    by (simp add: initial_state_def)
  from load_token_type_is_Bearer [THEN conjunct2, THEN conjunct2,
      of example_token "js ''user@example.com''" initial_state "()" st1] s
  have "\<exists>loaded st2. loadTokenFromStorage st1 = (Inr (Some loaded), st2) \<and> token_type loaded = js ''Bearer''"
    by simp
  with s show ?thesis
    by (auto simp: example_token_def js_def)
qed

section \<open>Properties of sendRequest\<close>

lemma withRetry_loop_invariant:
  assumes fn_inv: "\<And>s a s'. I s \<Longrightarrow> fn s = (a, s') \<Longrightarrow>
             I s' \<and> (\<exists>evs. trace s' = trace s @ evs \<and> (\<forall>ev\<in>set evs. Q ev))"
    and sleep_inv: "\<And>s ms. I s \<Longrightarrow> I (sleep ms s)"
    and sleep_ev: "\<And>ms. Q (Slept ms)"
  shows "I st \<Longrightarrow> withRetry_loop fn retries delay attempt lastError st = (r, st') \<Longrightarrow>
     I st' \<and> (\<exists>evs. trace st' = trace st @ evs \<and> (\<forall>ev\<in>set evs. Q ev))"
proof (induction "nat (retries + 1 - attempt)" arbitrary: attempt lastError st)
  case 0
  then have "\<not> attempt \<le> retries" by simp
  with "0.prems" show ?case
    by (subst (asm) withRetry_loop.simps) (auto split: option.splits)
next
  case (Suc n)
  then have le: "attempt \<le> retries" and n: "n = nat (retries + 1 - (attempt + 1))" by simp_all
  obtain a s1 where f: "fn st = (a, s1)" by (cases "fn st")
  from fn_inv [OF Suc.prems(1) f]
  obtain evs1 where s1: "I s1" "trace s1 = trace st @ evs1" "\<forall>ev\<in>set evs1. Q ev" by auto
  show ?case
  proof (cases a)
    case (Inr w)
    with le f Suc.prems(2) s1 show ?thesis
      by (subst (asm) withRetry_loop.simps) auto
  next
    case (Inl err)
    show ?thesis
    proof (cases "status err = Some 401 \<or> status err = Some 403 \<or> status err = Some 400")
      case fatal: True
      with le f Inl Suc.prems(2) s1 show ?thesis
        by (subst (asm) withRetry_loop.simps) auto
    next
      case nonfatal: False
      show ?thesis
      proof (cases "attempt < retries")
        case lt: True
        from Suc.prems(2) le f Inl nonfatal lt
        have r: "withRetry_loop fn retries delay (attempt + 1) (Some err) (sleep (delay * attempt) s1) = (r, st')"
          by (subst (asm) withRetry_loop.simps) simp
        have i: "I (sleep (delay * attempt) s1)" using s1(1) by (rule sleep_inv)
        from Suc.hyps(1) [OF n i r]
        obtain evs2 where "I st'" "trace st' = trace (sleep (delay * attempt) s1) @ evs2"
          "\<forall>ev\<in>set evs2. Q ev" by auto
        with s1 sleep_ev show ?thesis
          by (auto simp: sleep_def timer_delay_def)
      next
        case ge: False
        from Suc.prems(2) le f Inl nonfatal ge
        have r: "withRetry_loop fn retries delay (attempt + 1) (Some err) s1 = (r, st')"
          by (subst (asm) withRetry_loop.simps) simp
        from Suc.hyps(1) [OF n s1(1) r]
        obtain evs2 where "I st'" "trace st' = trace s1 @ evs2" "\<forall>ev\<in>set evs2. Q ev" by auto
        with s1 show ?thesis by auto
      qed
    qed
  qed
qed

lemma authorization_header:
  "map_of (buildQwenHeaders s flag) (js ''Authorization'') =
     Some (js ''Bearer '' @ (case currentToken s of Some token \<Rightarrow> access_token token | None \<Rightarrow> []))"
proof -
  have "js ''Content-Type'' \<noteq> js ''Authorization''" by (simp add: js_def)
  then show ?thesis by (simp add: buildQwenHeaders_def)
qed

lemma sendRequest_attempt_events:
  assumes "currentToken s = Some tok" and "sendRequest_attempt net options s = (a, s')"
  shows "currentToken s' = Some tok \<and>
     (\<exists>url headers. trace s' = trace s @ [Fetched (Json_post url headers options)]
        \<and> map_of headers (js ''Authorization'') = Some (js ''Bearer '' @ access_token tok))"
proof -
  let ?req = "Json_post (buildBaseUrl (resource_url tok) @ js ''/chat/completions'')
      (buildQwenHeaders s (stream options = Some True)) options"
  obtain outcome elapsed server' where e: "chat_endpoint net ?req (server s) = (outcome, elapsed, server')"
    by (cases "chat_endpoint net ?req (server s)")
  obtain res s1 where f: "fetchWithTimeout (chat_endpoint net) ?req s = (res, s1)"
    by (cases "fetchWithTimeout (chat_endpoint net) ?req s")
  from f e have s1: "currentToken s1 = currentToken s" "trace s1 = trace s @ [Fetched ?req]"
    by (auto simp: fetchWithTimeout_def split: if_splits)
  from assms(2) f assms(1) have "s' = s1"
    by (auto simp: sendRequest_attempt_def Let_def split: sum.splits response.splits ok_body.splits if_splits)
  with s1 assms(1) authorization_header [of s "stream options = Some True"] show ?thesis
    by auto
qed

lemma sendRequest_attempt_invariant:
  assumes "currentToken s = Some tok" and "sendRequest_attempt net options s = (a, s')"
  shows "currentToken s' = Some tok \<and>
     (\<exists>evs. trace s' = trace s @ evs \<and> (\<forall>ev\<in>set evs. downstream_event (access_token tok) options ev))"
  using sendRequest_attempt_events [OF assms]
  by (auto simp: downstream_event_def)

lemma dispatch_events:
  assumes "currentToken st = Some tok"
    and "withRetry_loop (sendRequest_attempt net options) retries delay attempt lastError st = (res, st')"
  shows "currentToken st' = Some tok \<and>
     (\<exists>evs. trace st' = trace st @ evs \<and> (\<forall>ev\<in>set evs. downstream_event (access_token tok) options ev))"
proof (rule withRetry_loop_invariant
    [where I = "\<lambda>s. currentToken s = Some tok" and Q = "downstream_event (access_token tok) options"
       and fn = "sendRequest_attempt net options", OF _ _ _ assms])
  fix s a s'
  assume "currentToken s = Some tok" and "sendRequest_attempt net options s = (a, s')"
  then show "currentToken s' = Some tok \<and>
     (\<exists>evs. trace s' = trace s @ evs \<and> (\<forall>ev\<in>set evs. downstream_event (access_token tok) options ev))"
    by (rule sendRequest_attempt_invariant)
next
  fix s :: "'a state" and ms
  assume "currentToken s = Some tok"
  then show "currentToken (sleep ms s) = Some tok" by (simp add: sleep_def timer_delay_def)
next
  fix ms
  show "downstream_event (access_token tok) options (Slept ms)" by (simp add: downstream_event_def)
qed

lemma dispatch_first_request:
  assumes "currentToken st = Some tok" and "1 \<le> retries"
    and "withRetry (sendRequest_attempt net options) retries delay st = (res, st')"
  shows "\<exists>url headers evs. trace st' = trace st @ Fetched (Json_post url headers options) # evs
     \<and> map_of headers (js ''Authorization'') = Some (js ''Bearer '' @ access_token tok)
     \<and> (\<forall>ev\<in>set evs. downstream_event (access_token tok) options ev)"
proof -
  obtain a s1 where f: "sendRequest_attempt net options st = (a, s1)"
    by (cases "sendRequest_attempt net options st")
  from sendRequest_attempt_events [OF assms(1) f]
  obtain url headers where s1: "currentToken s1 = Some tok"
    "trace s1 = trace st @ [Fetched (Json_post url headers options)]"
    "map_of headers (js ''Authorization'') = Some (js ''Bearer '' @ access_token tok)"
    by auto
  have "\<exists>evs. trace st' = trace s1 @ evs \<and> (\<forall>ev\<in>set evs. downstream_event (access_token tok) options ev)"
  proof (cases a)
    case (Inr v)
    with assms(2,3) f show ?thesis
      unfolding withRetry_def by (subst (asm) withRetry_loop.simps) auto
  next
    case (Inl err)
    show ?thesis
    proof (cases "status err = Some 401 \<or> status err = Some 403 \<or> status err = Some 400")
      case True
      with Inl assms(2,3) f show ?thesis
        unfolding withRetry_def by (subst (asm) withRetry_loop.simps) auto
    next
      case False
      show ?thesis
      proof (cases "1 < retries")
        case True
        with False Inl assms(2,3) f
        have "withRetry_loop (sendRequest_attempt net options) retries delay 2 (Some err) (sleep (delay * 1) s1) = (res, st')"
          unfolding withRetry_def by (subst (asm) withRetry_loop.simps) simp
        from dispatch_events [OF _ this, of tok] s1(1)
        obtain evs where "trace st' = trace (sleep (delay * 1) s1) @ evs"
          "\<forall>ev\<in>set evs. downstream_event (access_token tok) options ev"
          by (auto simp: sleep_def timer_delay_def)
        then show ?thesis
          by (auto simp: sleep_def timer_delay_def downstream_event_def intro!: exI [of _ "Slept delay # evs"])
      next
        case False
        with \<open>\<not> (status err = Some 401 \<or> status err = Some 403 \<or> status err = Some 400)\<close> Inl assms(2,3) f
        have "withRetry_loop (sendRequest_attempt net options) retries delay 2 (Some err) s1 = (res, st')"
          unfolding withRetry_def by (subst (asm) withRetry_loop.simps) simp
        from dispatch_events [OF s1(1) this] show ?thesis by auto
      qed
    qed
  qed
  with s1 show ?thesis by auto
qed

lemma refreshToken_attempt_adopts:
  "refreshToken_attempt net refreshToken_arg s = (Inr tokenData, s') \<Longrightarrow> currentToken s' = Some tokenData"
  by (auto simp: refreshToken_attempt_def Let_def saveTokenToStorage_def mkdir_def writeFile_def
      split: prod.splits sum.splits if_splits)

lemma refreshToken_adopts:
  assumes "refreshToken net refreshToken_arg st = (Inr refreshed, st1)"
  shows "currentToken st1 = Some refreshed"
proof -
  from assms withRetry_loop_success_is_attempt
    [of "refreshToken_attempt net refreshToken_arg" MAX_RETRIES RETRY_DELAY_MS 1 None st refreshed st1]
  obtain s where "refreshToken_attempt net refreshToken_arg s = (Inr refreshed, st1)"
    by (auto simp: refreshToken_def withRetry_def)
  then show ?thesis by (rule refreshToken_attempt_adopts)
qed

lemma refreshToken_first_attempt:
  assumes "token_endpoint net (refresh_request refreshToken_arg) (server st) =
      (Inr (Response_ok (Json response)), elapsed, server')"
    and "int elapsed < requestTimeoutMs"
    and "\<bar>clock st + int elapsed + expires_in response * 1000\<bar> \<le> max_time_value"
    and "writable st" and "files st (tokenStoragePath st) \<noteq> Some Directory"
  shows "refreshToken net refreshToken_arg st =
     (Inr (refreshed_token response refreshToken_arg (clock st + int elapsed)),
      (settled (refresh_request refreshToken_arg) elapsed server' st)
        \<lparr>currentToken := Some (refreshed_token response refreshToken_arg (clock st + int elapsed)),
         files := (files st)(tokenStoragePath st \<mapsto> Regular_file (Envelope_text
            (envelope_of (refreshed_token response refreshToken_arg (clock st + int elapsed))
               (email_or_unknown (currentEmail st)) (clock st + int elapsed))))\<rparr>)"
proof -
  let ?st1 = "settled (refresh_request refreshToken_arg) elapsed server' st"
  have p: "postForm (token_endpoint net) QWEN_OAUTH_TOKEN_ENDPOINT
       [(js ''grant_type'', js ''refresh_token''),
        (js ''refresh_token'', refreshToken_arg),
        (js ''client_id'', QWEN_OAUTH_CLIENT_ID)] st = (Inr response, ?st1)"
    using assms(1,2) fetch_settles [of "token_endpoint net" "refresh_request refreshToken_arg" st
      "Inr (Response_ok (Json response))" elapsed server']
    by (simp add: postForm_def refresh_request_def)
  have c: "clock ?st1 = clock st + int elapsed" "writable ?st1" "files ?st1 = files st"
    "tokenStoragePath ?st1 = tokenStoragePath st" "currentEmail ?st1 = currentEmail st"
    using assms by (simp_all add: settled_def)
  have t: "refreshToken_attempt net refreshToken_arg st =
     (Inr (refreshed_token response refreshToken_arg (clock st + int elapsed)),
      ?st1\<lparr>currentToken := Some (refreshed_token response refreshToken_arg (clock st + int elapsed)),
         files := (files st)(tokenStoragePath st \<mapsto> Regular_file (Envelope_text
            (envelope_of (refreshed_token response refreshToken_arg (clock st + int elapsed))
               (email_or_unknown (currentEmail st)) (clock st + int elapsed))))\<rparr>)"
    using assms(3-5)
    by (simp add: refreshToken_attempt_def p c toISOString_def Let_def save_ok refreshed_token_def
        email_or_unknown_def)
  show ?thesis
    unfolding refreshToken_def withRetry_def
    using t withRetry_loop_returns [of 1 MAX_RETRIES "refreshToken_attempt net refreshToken_arg" st _ _
        RETRY_DELAY_MS None]
    by (simp add: MAX_RETRIES_def)
qed

lemma sendRequest_expired:
  assumes "currentToken st = Some token" and "isTokenExpired (clock st) token"
    and "refresh_token token = Some r" and "r \<noteq> []"
  shows "sendRequest net options st =
     (case refreshToken net r st of
        (Inl err, st1) \<Rightarrow> (Inl err, st1)
      | (Inr refreshed, st1) \<Rightarrow> withRetry (sendRequest_attempt net options) MAX_RETRIES RETRY_DELAY_MS st1)"
  using assms by (simp add: sendRequest_def sendRequest_with_token_def Let_def)

text \<open>
  Claim C6. Let the token in memory be expired (the current time is at or after its expiry)
  and have a refresh token that is not empty. Then \<open>sendRequest\<close> calls \<open>refreshToken\<close>
  once, first. When the refresh throws, \<open>sendRequest\<close> throws the same error and sends no
  chat request. When the refresh returns a record, that record is the current token, and
  what follows is the retry loop of the chat request alone, from the state the refresh
  left: it sends the chat request at least once, each time with the new access token as the
  bearer, and between the attempts it only sleeps; it makes no other refresh and no other
  check of the expiry. When the token endpoint answers the refresh request with a token
  payload, the refresh is one request and returns the access token of the payload.
\<close>

theorem sendRequest_refreshes_expired_token:
  assumes "currentToken st = Some token" and "isTokenExpired (clock st) token"
    and "refresh_token token = Some r" and "r \<noteq> []"
  shows "(refreshToken net r st = (Inl err, st1) \<longrightarrow> sendRequest net options st = (Inl err, st1))
   \<and> (refreshToken net r st = (Inr refreshed, st2) \<longrightarrow>
        currentToken st2 = Some refreshed
        \<and> sendRequest net options st =
            withRetry (sendRequest_attempt net options) MAX_RETRIES RETRY_DELAY_MS st2
        \<and> (\<exists>url headers evs.
              trace (snd (sendRequest net options st)) =
                trace st2 @ Fetched (Json_post url headers options) # evs
              \<and> map_of headers (js ''Authorization'') = Some (js ''Bearer '' @ access_token refreshed)
              \<and> (\<forall>ev\<in>set evs. downstream_event (access_token refreshed) options ev)))
   \<and> (token_endpoint net (refresh_request r) (server st) =
          (Inr (Response_ok (Json response)), elapsed, server')
        \<and> int elapsed < requestTimeoutMs
        \<and> \<bar>clock st + int elapsed + expires_in response * 1000\<bar> \<le> max_time_value
        \<and> writable st \<and> files st (tokenStoragePath st) \<noteq> Some Directory \<longrightarrow>
        (\<exists>issued st3. refreshToken net r st = (Inr issued, st3)
           \<and> access_token issued = access_token_resp response
           \<and> trace st3 = trace st @ [Fetched (refresh_request r)]))"
proof (intro conjI impI)
  assume "refreshToken net r st = (Inl err, st1)"
  then show "sendRequest net options st = (Inl err, st1)"
    by (simp add: sendRequest_expired [OF assms])
next
  assume a: "refreshToken net r st = (Inr refreshed, st2)"
  then show c: "currentToken st2 = Some refreshed" by (rule refreshToken_adopts)
  from a show s: "sendRequest net options st =
      withRetry (sendRequest_attempt net options) MAX_RETRIES RETRY_DELAY_MS st2"
    by (simp add: sendRequest_expired [OF assms])
  obtain res st' where w: "withRetry (sendRequest_attempt net options) MAX_RETRIES RETRY_DELAY_MS st2 = (res, st')"
    by (cases "withRetry (sendRequest_attempt net options) MAX_RETRIES RETRY_DELAY_MS st2")
  have "1 \<le> MAX_RETRIES" by (simp add: MAX_RETRIES_def)
  from dispatch_first_request [OF c this w] s w
  show "\<exists>url headers evs.
          trace (snd (sendRequest net options st)) = trace st2 @ Fetched (Json_post url headers options) # evs
          \<and> map_of headers (js ''Authorization'') = Some (js ''Bearer '' @ access_token refreshed)
          \<and> (\<forall>ev\<in>set evs. downstream_event (access_token refreshed) options ev)"
    by simp
next
  assume "token_endpoint net (refresh_request r) (server st) =
          (Inr (Response_ok (Json response)), elapsed, server')
        \<and> int elapsed < requestTimeoutMs
        \<and> \<bar>clock st + int elapsed + expires_in response * 1000\<bar> \<le> max_time_value
        \<and> writable st \<and> files st (tokenStoragePath st) \<noteq> Some Directory"
  then have "refreshToken net r st =
     (Inr (refreshed_token response r (clock st + int elapsed)),
      (settled (refresh_request r) elapsed server' st)
        \<lparr>currentToken := Some (refreshed_token response r (clock st + int elapsed)),
         files := (files st)(tokenStoragePath st \<mapsto> Regular_file (Envelope_text
            (envelope_of (refreshed_token response r (clock st + int elapsed))
               (email_or_unknown (currentEmail st)) (clock st + int elapsed))))\<rparr>)"
    by (intro refreshToken_first_attempt) simp_all
  then show "\<exists>issued st3. refreshToken net r st = (Inr issued, st3)
           \<and> access_token issued = access_token_resp response
           \<and> trace st3 = trace st @ [Fetched (refresh_request r)]"
    by (simp add: refreshed_token_def settled_def)
qed

theorem sendRequest_refreshes_expired_token_witness:
  "fst (sendRequest (stub_network [token_issued (js ''tok-B'') 3600]) chat_options expired_state) =
     Inr (Json_value (js ''Bearer tok-B''))
   \<and> (\<exists>url headers.
        trace (snd (sendRequest (stub_network [token_issued (js ''tok-B'') 3600]) chat_options expired_state)) =
          [Fetched (refresh_request (js ''refresh-0'')), Fetched (Json_post url headers chat_options)]
        \<and> map_of headers (js ''Authorization'') = Some (js ''Bearer tok-B''))"
proof -
  let ?net = "stub_network [token_issued (js ''tok-B'') 3600]"
  define tokB where "tokB = refreshed_token (token_payload (js ''tok-B'') 3600) (js ''refresh-0'')
     (clock expired_state + int 0)"
  define stB where "stB = (settled (refresh_request (js ''refresh-0'')) 0 1 expired_state)
        \<lparr>currentToken := Some tokB,
         files := (files expired_state)(tokenStoragePath expired_state \<mapsto> Regular_file (Envelope_text
            (envelope_of tokB (email_or_unknown (currentEmail expired_state)) (clock expired_state + int 0))))\<rparr>"
  have r: "refreshToken ?net (js ''refresh-0'') expired_state = (Inr tokB, stB)"
    unfolding tokB_def stB_def
    by (rule refreshToken_first_attempt) (simp_all add: stub_simps expired_state_def)
  have h: "currentToken expired_state = Some expired_token"
    "isTokenExpired (clock expired_state) expired_token"
    "refresh_token expired_token = Some (js ''refresh-0'')" "js ''refresh-0'' \<noteq> []"
    by (simp_all add: expired_state_def expired_token_def initial_state_def isTokenExpired_def
        parseExpiry_def max_time_value_def js_def)
  from sendRequest_refreshes_expired_token [OF h, of ?net _ _ chat_options tokB stB] r
  have s: "sendRequest ?net chat_options expired_state =
      withRetry (sendRequest_attempt ?net chat_options) MAX_RETRIES RETRY_DELAY_MS stB"
    by simp
  have b: "currentToken stB = Some tokB" "server stB = 1" "resource_url tokB = None"
    "access_token tokB = js ''tok-B''"
    "trace stB = [Fetched (refresh_request (js ''refresh-0''))]"
    by (simp_all add: stB_def tokB_def settled_def refreshed_token_def token_payload_def
        expired_state_def initial_state_def)
  let ?req = "Json_post (js ''https://portal.qwen.ai/v1'' @ js ''/chat/completions'')
      (buildQwenHeaders stB False) chat_options"
  have j: "js ''Bearer '' @ js ''tok-B'' = js ''Bearer tok-B''" by (simp add: js_def)
  have a: "sendRequest_attempt ?net chat_options stB =
      (Inr (Json_value (js ''Bearer tok-B'')), settled ?req 0 1 stB)"
    by (simp add: sendRequest_attempt_def Let_def fetchWithTimeout_def stub_network_def
        echo_authorization_def authorization_header buildBaseUrl_def chat_options_def settled_def
        requestTimeoutMs_def b j)
  have w: "withRetry (sendRequest_attempt ?net chat_options) MAX_RETRIES RETRY_DELAY_MS stB =
      (Inr (Json_value (js ''Bearer tok-B'')), settled ?req 0 1 stB)"
    unfolding withRetry_def
    using a withRetry_loop_returns [of 1 MAX_RETRIES "sendRequest_attempt ?net chat_options" stB _ _
        RETRY_DELAY_MS None]
    by (simp add: MAX_RETRIES_def)
  show ?thesis
    unfolding s w
    by (simp add: settled_def b authorization_header j)
qed

section \<open>Properties of the PKCE functions\<close>

lemma sextet_less: "unat (v :: 6 word) < 64"
  using unsigned_less [of v, where 'a = nat] by simp

lemma length_base64_alphabet: "length base64_alphabet = 64"
  by (simp add: base64_alphabet_def js_def)

lemma length_base64url_alphabet: "length base64url_alphabet = 64"
  by (simp add: base64url_alphabet_def js_def)

lemma url_alphabet: "map url_char_of base64_alphabet = base64url_alphabet"
  by (simp add: base64_alphabet_def base64url_alphabet_def js_def url_char_of_def)

lemma url_char_of_base64_char: "url_char_of (base64_char v) = base64url_char v"
proof -
  have "url_char_of (base64_alphabet ! unat v) = map url_char_of base64_alphabet ! unat v"
    using sextet_less [of v] by (simp add: length_base64_alphabet)
  then show ?thesis by (simp add: base64_char_def base64url_char_def url_alphabet)
qed

lemma url_char_of_pad: "url_char_of 0x3D = 0x3D"
  by (simp add: url_char_of_def)

lemma pad_not_in_url_alphabet: "0x3D \<notin> set base64url_alphabet"
  by (simp add: base64url_alphabet_def js_def)

lemma base64url_char_not_pad: "base64url_char v \<noteq> 0x3D"
proof -
  have "base64url_alphabet ! unat v \<in> set base64url_alphabet"
    using sextet_less [of v] by (simp add: length_base64url_alphabet)
  with pad_not_in_url_alphabet show ?thesis
    by (auto simp: base64url_char_def)
qed

lemma replace_twice: "replace_all 0x2F 0x5F (replace_all 0x2B 0x2D s) = map url_char_of s"
  by (simp add: replace_all_def url_char_of_def)

lemma strip_append:
  assumes "A \<noteq> []" and "last A \<noteq> 0x3D"
  shows "strip_trailing_equals (A @ B) = A @ strip_trailing_equals B"
proof (cases "\<forall>x\<in>set B. x = 0x3D")
  case True
  then have b: "dropWhile (\<lambda>x. x = 0x3D) (rev B) = []" by simp
  have "dropWhile (\<lambda>x. x = 0x3D) (rev A) = rev A"
    using assms by (simp add: dropWhile_eq_self_iff hd_rev)
  with True b show ?thesis
    by (simp add: strip_trailing_equals_def dropWhile_append)
next
  case False
  then show ?thesis
    by (auto simp: strip_trailing_equals_def dropWhile_append)
qed

lemma strip_map_base64: "strip_trailing_equals (map url_char_of (base64 bytes)) = base64url_unpadded bytes"
proof (induction bytes rule: base64.induct)
  case 1
  show ?case by (simp add: strip_trailing_equals_def)
next
  case (2 a)
  show ?case
    by (simp add: strip_trailing_equals_def url_char_of_base64_char url_char_of_pad base64url_char_not_pad)
next
  case (3 a b)
  show ?case
    by (simp add: strip_trailing_equals_def url_char_of_base64_char url_char_of_pad base64url_char_not_pad)
next
  case (4 a b c bytes)
  let ?q = "[base64url_char (sextet1 a), base64url_char (sextet2 a b), base64url_char (sextet3 b c),
      base64url_char (sextet4 c)]"
  have "strip_trailing_equals (?q @ map url_char_of (base64 bytes)) =
        ?q @ strip_trailing_equals (map url_char_of (base64 bytes))"
    by (rule strip_append) (simp_all add: base64url_char_not_pad)
  with 4 show ?case
    by (simp add: url_char_of_base64_char)
qed

lemma base64URLEncode_is_base64url: "base64URLEncode bytes = base64url_unpadded bytes"
  by (simp add: base64URLEncode_def replace_twice strip_map_base64)

lemma base64url_unpadded_no_pad: "0x3D \<notin> set (base64url_unpadded bytes)"
  by (induction bytes rule: base64url_unpadded.induct) (simp_all add: base64url_char_not_pad)

lemma length_base64url_unpadded:
  "length (base64url_unpadded bytes) =
     4 * (length bytes div 3) + (if length bytes mod 3 = 0 then 0 else length bytes mod 3 + 1)"
  by (induction bytes rule: base64url_unpadded.induct) simp_all

text \<open>
  Claim C5. The code verifier is the base64url encoding without padding of the 32 bytes
  that \<open>randomBytes\<close> gives, and the code challenge is the base64url encoding without
  padding of the SHA-256 digest of the verifier's text; neither contains the padding
  character. Here base64url without padding is the encoding of RFC 4648, defined on
  its own, and the code reaches it through base64 with padding and three replacements.
  Thirty-two bytes give a verifier of 43 characters.
\<close>

theorem pkce_challenge_is_base64url_of_digest:
  "(initiateDeviceFlow_pkce randomBytes sha256 = (codeVerifier, codeChallenge) \<longrightarrow>
      codeVerifier = base64url_unpadded (randomBytes 32)
      \<and> codeChallenge = base64url_unpadded (sha256 codeVerifier)
      \<and> 0x3D \<notin> set codeVerifier \<and> 0x3D \<notin> set codeChallenge)
   \<and> generateCodeChallenge sha256 verifier = base64url_unpadded (sha256 verifier)
   \<and> 0x3D \<notin> set (generateCodeChallenge sha256 verifier)
   \<and> (length (randomBytes 32) = 32 \<longrightarrow> length (generateCodeVerifier randomBytes) = 43)"
  by (auto simp: initiateDeviceFlow_pkce_def Let_def generateCodeChallenge_def generateCodeVerifier_def
      base64URLEncode_is_base64url base64url_unpadded_no_pad length_base64url_unpadded)

lemma rfc_verifier_url: "base64url_unpadded rfc7636_verifier_octets = js ''dBjftJeZ4CVP-mB92K27uhbUJU1p1r_wW1gFWFOEjXk''"
  by code_simp

lemma rfc_challenge_url: "base64url_unpadded rfc7636_digest_octets = js ''E9Melhoa2OwvFrEMTJguCHaoeK1t8URWbuGJSstw-cM''"
  by code_simp

theorem pkce_challenge_is_base64url_of_digest_witness:
  "initiateDeviceFlow_pkce (\<lambda>n. rfc7636_verifier_octets) (\<lambda>v. rfc7636_digest_octets) =
     (js ''dBjftJeZ4CVP-mB92K27uhbUJU1p1r_wW1gFWFOEjXk'', js ''E9Melhoa2OwvFrEMTJguCHaoeK1t8URWbuGJSstw-cM'')
   \<and> length (generateCodeVerifier (\<lambda>n. rfc7636_verifier_octets)) = 43"
proof -
  obtain v c where p: "initiateDeviceFlow_pkce (\<lambda>n. rfc7636_verifier_octets) (\<lambda>v. rfc7636_digest_octets) = (v, c)"
    by (cases "initiateDeviceFlow_pkce (\<lambda>n. rfc7636_verifier_octets) (\<lambda>v. rfc7636_digest_octets)")
  note t = pkce_challenge_is_base64url_of_digest
    [of "\<lambda>n. rfc7636_verifier_octets" "\<lambda>v. rfc7636_digest_octets" v c]
  from t p have "v = js ''dBjftJeZ4CVP-mB92K27uhbUJU1p1r_wW1gFWFOEjXk''"
    "c = js ''E9Melhoa2OwvFrEMTJguCHaoeK1t8URWbuGJSstw-cM''"
    by (simp_all add: rfc_verifier_url rfc_challenge_url)
  moreover have "length rfc7636_verifier_octets = 32"
    by (simp add: rfc7636_verifier_octets_def)
  with t have "length (generateCodeVerifier (\<lambda>n. rfc7636_verifier_octets)) = 43" by simp
  ultimately show ?thesis using p by simp
qed

section \<open>Failures that are not degraded\<close>










lemma poll_try_success:
  assumes "token_endpoint net (poll_request deviceCode codeVerifier) (server st) =
      (Inr (Response_ok (Json response)), elapsed, server')"
    and "int elapsed < requestTimeoutMs"
    and "\<bar>clock st + int elapsed + expires_in response * 1000\<bar> \<le> max_time_value"
    and "writable st" and "files st (tokenStoragePath st) \<noteq> Some Directory"
  shows "\<exists>st'. pollForToken_try net deviceCode codeVerifier email_arg st =
     (Inr (issued_token response (clock st + int elapsed)), st')"
proof -
  let ?st1 = "settled (poll_request deviceCode codeVerifier) elapsed server' st"
  have p: "postForm (token_endpoint net) QWEN_OAUTH_TOKEN_ENDPOINT
       [(js ''grant_type'', QWEN_OAUTH_GRANT_TYPE),
        (js ''client_id'', QWEN_OAUTH_CLIENT_ID),
        (js ''device_code'', deviceCode),
        (js ''code_verifier'', codeVerifier)] st = (Inr response, ?st1)"
    using assms(1,2) fetch_settles [of "token_endpoint net" "poll_request deviceCode codeVerifier" st
      "Inr (Response_ok (Json response))" elapsed server']
    by (simp add: postForm_def poll_request_def)
  have c: "clock ?st1 = clock st + int elapsed" "writable ?st1" "files ?st1 = files st"
    "tokenStoragePath ?st1 = tokenStoragePath st"
    using assms by (simp_all add: settled_def)
  show ?thesis
    using assms(3-5)
    by (simp add: pollForToken_try_def p c toISOString_def Let_def save_ok issued_token_def)
qed

lemma refresh_attempt_success:
  assumes "token_endpoint net (refresh_request refreshToken_arg) (server st) =
      (Inr (Response_ok (Json response)), elapsed, server')"
    and "int elapsed < requestTimeoutMs"
    and "\<bar>clock st + int elapsed + expires_in response * 1000\<bar> \<le> max_time_value"
    and "writable st" and "files st (tokenStoragePath st) \<noteq> Some Directory"
  shows "\<exists>st'. refreshToken_attempt net refreshToken_arg st =
     (Inr (refreshed_token response refreshToken_arg (clock st + int elapsed)), st')"
proof -
  let ?st1 = "settled (refresh_request refreshToken_arg) elapsed server' st"
  have p: "postForm (token_endpoint net) QWEN_OAUTH_TOKEN_ENDPOINT
       [(js ''grant_type'', js ''refresh_token''),
        (js ''refresh_token'', refreshToken_arg),
        (js ''client_id'', QWEN_OAUTH_CLIENT_ID)] st = (Inr response, ?st1)"
    using assms(1,2) fetch_settles [of "token_endpoint net" "refresh_request refreshToken_arg" st
      "Inr (Response_ok (Json response))" elapsed server']
    by (simp add: postForm_def refresh_request_def)
  have c: "clock ?st1 = clock st + int elapsed" "writable ?st1" "files ?st1 = files st"
    "tokenStoragePath ?st1 = tokenStoragePath st"
    using assms by (simp_all add: settled_def)
  show ?thesis
    using assms(3-5)
    by (simp add: refreshToken_attempt_def p c toISOString_def Let_def save_ok refreshed_token_def)
qed







end
